theory Spec2Isabelle
  imports Main
begin

section \<open>Data model\<close>

text \<open>
  The repository holds two variants of one Express server over an S3 bucket listing:
  \<^verbatim>\<open>src/server.js\<close> lists the bucket on every request (the direct server), and
  \<^verbatim>\<open>src/unnamed/part_000\<close> serves the listings from an in-memory cache that a timer
  refreshes (the caching server). Both share the start-up check of the environment,
  \<^verbatim>\<open>listObjects\<close> and the mapping from a listed file to a \<open>{key, url}\<close> entry.
\<close>

text \<open>\<^verbatim>\<open>process.env\<close>: a variable is a string or undefined.\<close>

type_synonym env = "string \<rightharpoonup> string"

text \<open>One element of \<^verbatim>\<open>data.Contents\<close>; only \<^verbatim>\<open>file.Key\<close> is read.\<close>

record S3Object =
  Key :: string

text \<open>The entry the server caches and returns: \<^verbatim>\<open>{ key, url }\<close>.\<close>

record ObjectEntry =
  key :: string
  url :: string

text \<open>The argument of \<^verbatim>\<open>new ListObjectsV2Command({ Bucket, Prefix, MaxKeys, ContinuationToken })\<close>.\<close>

record ListObjectsV2Input =
  Bucket :: "string option"
  Prefix :: string
  MaxKeys :: nat
  ContinuationToken :: "string option"

text \<open>
  What \<^verbatim>\<open>s3.send(command)\<close> resolves to. \<open>Contents\<close> is undefined when the page is empty;
  \<open>NextContinuationToken\<close> is defined when further pages remain.
\<close>

record ListObjectsV2Output =
  Contents :: "S3Object list option"
  IsTruncated :: bool
  NextContinuationToken :: "string option"

datatype s3_error = S3Error string

type_synonym s3_outcome = "s3_error + ListObjectsV2Output"

text \<open>The backing store seen as a function from a request to its outcome.\<close>

type_synonym s3_store = "ListObjectsV2Input \<Rightarrow> s3_outcome"

text \<open>The object a caller passes to \<^verbatim>\<open>listObjects\<close>; an omitted property is undefined.\<close>

record listObjects_args =
  arg_Bucket :: "string option"
  arg_Prefix :: "string option"
  arg_MaxKeys :: "nat option"
  arg_ContinuationToken :: "string option"

text \<open>The \<^verbatim>\<open>port\<close> given to \<^verbatim>\<open>app.listen\<close>: \<^verbatim>\<open>process.env.PORT || 5000\<close>.\<close>

datatype port = EnvPort string | NumPort nat

text \<open>Lines written with \<^verbatim>\<open>console.error\<close> and \<^verbatim>\<open>console.log\<close>.\<close>

datatype log_line =
    MissingEnv string
  | S3ErrorLog s3_error
  | FailedImages s3_error
  | FailedFolder string s3_error
  | CachedImages nat
  | CachedFolder nat string
  | ServerError s3_error
  | Running port

text \<open>
  JavaScript values that reach \<^verbatim>\<open>res.json\<close> or the test \<^verbatim>\<open>!cachedFolders[folder]\<close>:
  a cached array of entries, or what a property lookup finds on the prototype chain.
\<close>

datatype js_value =
    Undefined
  | Listing "ObjectEntry list"
  | Element ObjectEntry
  | Number nat
  | Builtin string
  | ObjectPrototypeObj
  | MessageObj string
  | ErrorObj string

record http_response =
  status :: nat
  body :: js_value

section \<open>Start-up check of the environment\<close>

definition requiredEnv :: "string list" where
  "requiredEnv = [''AWS_BUCKET'', ''AWS_REGION'', ''AWS_ACCESS_KEY'', ''AWS_SECRET_KEY'']"

text \<open>\<^verbatim>\<open>!process.env[key]\<close>: true for an undefined variable and for the empty string.\<close>

definition env_falsy :: "env \<Rightarrow> string \<Rightarrow> bool" where
  "env_falsy e k = (case e k of None \<Rightarrow> True | Some v \<Rightarrow> v = [])"

text \<open>
  \<^verbatim>\<open>requiredEnv.forEach\<close>: \<^verbatim>\<open>process.exit(1)\<close> ends the process at the first
  variable that fails the test, so the loop returns that variable, or None when all pass.
\<close>

fun first_missing :: "env \<Rightarrow> string list \<Rightarrow> string option" where
  "first_missing e [] = None"
| "first_missing e (k # ks) = (if env_falsy e k then Some k else first_missing e ks)"

section \<open>The object store gateway\<close>

text \<open>A template literal prints an undefined value as \<^verbatim>\<open>undefined\<close>.\<close>

definition template :: "string option \<Rightarrow> string" where
  "template v = (case v of None \<Rightarrow> ''undefined'' | Some s \<Rightarrow> s)"

text \<open>
  \<^verbatim>\<open>`https://${process.env.AWS_BUCKET}.s3.${process.env.AWS_REGION}.amazonaws.com/${file.Key}`\<close>
\<close>

definition object_url :: "env \<Rightarrow> string \<Rightarrow> string" where
  "object_url e k =
     ''https://'' @ template (e ''AWS_BUCKET'') @ ''.s3.'' @ template (e ''AWS_REGION'')
       @ ''.amazonaws.com/'' @ k"

definition to_entry :: "env \<Rightarrow> S3Object \<Rightarrow> ObjectEntry" where
  "to_entry e file = \<lparr>key = Key file, url = object_url e (Key file)\<rparr>"

text \<open>\<^verbatim>\<open>data.Contents?.map((file) => ({ key, url })) || []\<close>, the same in all four places.\<close>

definition to_entries :: "env \<Rightarrow> ListObjectsV2Output \<Rightarrow> ObjectEntry list" where
  "to_entries e data = (case Contents data of None \<Rightarrow> [] | Some files \<Rightarrow> map (to_entry e) files)"

text \<open>
  \<^verbatim>\<open>listObjects\<close>, first half: the destructuring defaults
  \<^verbatim>\<open>Prefix = "", MaxKeys = 1000, ContinuationToken = undefined\<close> and the command sent.
\<close>

definition listObjects_command :: "listObjects_args \<Rightarrow> ListObjectsV2Input" where
  "listObjects_command a =
     \<lparr>Bucket = arg_Bucket a,
      Prefix = (case arg_Prefix a of None \<Rightarrow> [] | Some p \<Rightarrow> p),
      MaxKeys = (case arg_MaxKeys a of None \<Rightarrow> 1000 | Some n \<Rightarrow> n),
      ContinuationToken = arg_ContinuationToken a\<rparr>"

text \<open>
  \<^verbatim>\<open>listObjects\<close>, second half: the awaited outcome is returned as it is; an error is
  logged (\<^verbatim>\<open>"S3 Error:"\<close>) and thrown again. The result is the lines logged and the outcome.
\<close>

definition listObjects_settle :: "s3_outcome \<Rightarrow> log_line list \<times> s3_outcome" where
  "listObjects_settle r = (case r of Inl err \<Rightarrow> ([S3ErrorLog err], Inl err) | Inr data \<Rightarrow> ([], Inr data))"

text \<open>\<^verbatim>\<open>listObjects\<close> against a store given as a function: one \<^verbatim>\<open>s3.send\<close>.\<close>

definition listObjects :: "s3_store \<Rightarrow> listObjects_args \<Rightarrow> log_line list \<times> s3_outcome" where
  "listObjects store a = listObjects_settle (store (listObjects_command a))"

text \<open>The two argument objects the callers build.\<close>

definition images_args :: "env \<Rightarrow> listObjects_args" where
  "images_args e =
     \<lparr>arg_Bucket = e ''AWS_BUCKET'', arg_Prefix = None, arg_MaxKeys = None,
      arg_ContinuationToken = None\<rparr>"

definition folder_args :: "env \<Rightarrow> string \<Rightarrow> listObjects_args" where
  "folder_args e folder =
     \<lparr>arg_Bucket = e ''AWS_BUCKET'', arg_Prefix = Some (folder @ ''/''), arg_MaxKeys = None,
      arg_ContinuationToken = None\<rparr>"

section \<open>The cache: a JavaScript object used as a dictionary\<close>

text \<open>
  \<^verbatim>\<open>let cachedFolders = {}\<close> is an ordinary object: its own properties are the cached
  folders, in insertion order, and its prototype is \<^verbatim>\<open>Object.prototype\<close>. Reading
  \<^verbatim>\<open>cachedFolders[folder]\<close> walks the prototype chain, and writing the property
  \<^verbatim>\<open>__proto__\<close> runs the setter of \<^verbatim>\<open>Object.prototype\<close>, which makes the assigned
  array the object's prototype instead of storing an own property.
\<close>

datatype js_proto = ObjectPrototype | ArrayInstance "ObjectEntry list"

record js_object =
  own :: "(string \<times> ObjectEntry list) list"
  proto :: js_proto

text \<open>The function-valued properties of \<^verbatim>\<open>Object.prototype\<close>.\<close>

definition object_prototype_methods :: "string list" where
  "object_prototype_methods =
     [''constructor'', ''__defineGetter__'', ''__defineSetter__'', ''hasOwnProperty'',
      ''__lookupGetter__'', ''__lookupSetter__'', ''isPrototypeOf'', ''propertyIsEnumerable'',
      ''toString'', ''valueOf'', ''toLocaleString'']"

text \<open>The string-keyed properties of \<^verbatim>\<open>Array.prototype\<close> (ECMAScript 2023), all functions.\<close>

definition array_prototype_methods :: "string list" where
  "array_prototype_methods =
     [''constructor'', ''at'', ''concat'', ''copyWithin'', ''fill'', ''find'', ''findIndex'',
      ''findLast'', ''findLastIndex'', ''lastIndexOf'', ''pop'', ''push'', ''reverse'', ''shift'',
      ''unshift'', ''slice'', ''sort'', ''splice'', ''includes'', ''indexOf'', ''join'', ''keys'',
      ''entries'', ''values'', ''forEach'', ''filter'', ''flat'', ''flatMap'', ''map'', ''every'',
      ''some'', ''reduce'', ''reduceRight'', ''toLocaleString'', ''toString'', ''toReversed'',
      ''toSorted'', ''toSpliced'', ''with'']"

definition is_digit :: "char \<Rightarrow> bool" where
  "is_digit c = (48 \<le> (of_char c :: nat) \<and> (of_char c :: nat) \<le> 57)"

definition decimal_value :: "string \<Rightarrow> nat" where
  "decimal_value s = foldl (\<lambda>n c. 10 * n + ((of_char c :: nat) - 48)) 0 s"

text \<open>
  An array index is a canonical decimal string of an integer below \<open>2^32 - 1\<close>:
  digits only, no leading zero but for \<^verbatim>\<open>"0"\<close> itself.
\<close>

definition array_index :: "string \<Rightarrow> nat option" where
  "array_index s =
     (if s \<noteq> [] \<and> list_all is_digit s \<and> (s = ''0'' \<or> hd s \<noteq> CHR ''0'')
         \<and> decimal_value s < 4294967295
      then Some (decimal_value s) else None)"

text \<open>
  A lookup that reached \<^verbatim>\<open>Object.prototype\<close>; \<open>p\<close> is the prototype of the object the
  lookup started from, which the getter of \<^verbatim>\<open>__proto__\<close> returns.
\<close>

definition object_prototype_get :: "js_value \<Rightarrow> string \<Rightarrow> js_value" where
  "object_prototype_get p k =
     (if k = ''__proto__'' then p
      else if k \<in> set object_prototype_methods then Builtin k
      else Undefined)"

text \<open>A lookup on an array of entries: its elements, its length, then its prototypes.\<close>

definition array_get :: "ObjectEntry list \<Rightarrow> js_value \<Rightarrow> string \<Rightarrow> js_value" where
  "array_get arr p k =
     (case (case array_index k of None \<Rightarrow> None
            | Some i \<Rightarrow> if i < length arr then Some (arr ! i) else None) of
        Some x \<Rightarrow> Element x
      | None \<Rightarrow>
          if k = ''length'' then Number (length arr)
          else if k \<in> set array_prototype_methods then Builtin k
          else object_prototype_get p k)"

text \<open>\<^verbatim>\<open>cachedFolders[k]\<close> as an expression.\<close>

definition get_property :: "js_object \<Rightarrow> string \<Rightarrow> js_value" where
  "get_property obj k =
     (case map_of (own obj) k of
        Some v \<Rightarrow> Listing v
      | None \<Rightarrow>
          (case proto obj of
             ObjectPrototype \<Rightarrow> object_prototype_get ObjectPrototypeObj k
           | ArrayInstance arr \<Rightarrow> array_get arr (Listing arr) k))"

text \<open>An own property keeps its place when it is overwritten and is appended when new.\<close>

fun put_own :: "string \<Rightarrow> ObjectEntry list \<Rightarrow> (string \<times> ObjectEntry list) list
    \<Rightarrow> (string \<times> ObjectEntry list) list" where
  "put_own k v [] = [(k, v)]"
| "put_own k v ((k', v') # rest) =
     (if k' = k then (k, v) # rest else (k', v') # put_own k v rest)"

text \<open>\<^verbatim>\<open>cachedFolders[k] = v\<close> for an array \<open>v\<close>.\<close>

definition set_property :: "js_object \<Rightarrow> string \<Rightarrow> ObjectEntry list \<Rightarrow> js_object" where
  "set_property obj k v =
     (if k = ''__proto__'' then obj\<lparr>proto := ArrayInstance v\<rparr>
      else obj\<lparr>own := put_own k v (own obj)\<rparr>)"

text \<open>The operand of \<^verbatim>\<open>!\<close>: undefined and the number 0 are falsy, every object is truthy.\<close>

fun truthy :: "js_value \<Rightarrow> bool" where
  "truthy Undefined = False"
| "truthy (Number n) = (n \<noteq> 0)"
| "truthy (Listing xs) = True"
| "truthy (Element x) = True"
| "truthy (Builtin f) = True"
| "truthy ObjectPrototypeObj = True"
| "truthy (MessageObj m) = True"
| "truthy (ErrorObj m) = True"

definition index_or_zero :: "string \<Rightarrow> nat" where
  "index_or_zero k = (case array_index k of None \<Rightarrow> 0 | Some i \<Rightarrow> i)"

text \<open>
  \<^verbatim>\<open>Object.keys(cachedFolders)\<close>: the own keys, array indices first in ascending numeric
  order, then the other strings in insertion order.
\<close>

definition object_keys :: "js_object \<Rightarrow> string list" where
  "object_keys obj =
     (let ks = map fst (own obj)
      in sort_key index_or_zero (filter (\<lambda>k. array_index k \<noteq> None) ks)
           @ filter (\<lambda>k. array_index k = None) ks)"

section \<open>The caching server (part_000)\<close>

text \<open>
  The module state: the two cache variables, the \<^verbatim>\<open>s3.send\<close> calls that are awaited
  (each with the refresh that resumes when it settles), every command sent so far, and the
  console. Node runs each synchronous section to its end, so a refresh is two steps: the
  section up to \<^verbatim>\<open>await s3.send(command)\<close>, and the section after it.
\<close>

datatype task = RefreshImagesTask | RefreshFolderTask string

record server =
  cachedImages :: "ObjectEntry list"
  cachedFolders :: js_object
  pending :: "(task \<times> ListObjectsV2Input) list"
  sent :: "ListObjectsV2Input list"
  console :: "log_line list"

definition initial_server :: server where
  "initial_server =
     \<lparr>cachedImages = [], cachedFolders = \<lparr>own = [], proto = ObjectPrototype\<rparr>,
      pending = [], sent = [], console = []\<rparr>"

definition send_command :: "task \<Rightarrow> ListObjectsV2Input \<Rightarrow> server \<Rightarrow> server" where
  "send_command t cmd s = s\<lparr>pending := pending s @ [(t, cmd)], sent := sent s @ [cmd]\<rparr>"

text \<open>\<^verbatim>\<open>refreshImages()\<close> up to its await.\<close>

definition refreshImages :: "env \<Rightarrow> server \<Rightarrow> server" where
  "refreshImages e s = send_command RefreshImagesTask (listObjects_command (images_args e)) s"

text \<open>\<^verbatim>\<open>refreshImages\<close> after its await: the assignment and the log, or the catch.\<close>

definition refreshImages_resume :: "env \<Rightarrow> s3_outcome \<Rightarrow> server \<Rightarrow> server" where
  "refreshImages_resume e r s =
     (case listObjects_settle r of
        (logs, Inr data) \<Rightarrow>
          (let images = to_entries e data
           in s\<lparr>cachedImages := images,
                console := console s @ logs @ [CachedImages (length images)]\<rparr>)
      | (logs, Inl err) \<Rightarrow> s\<lparr>console := console s @ logs @ [FailedImages err]\<rparr>)"

text \<open>\<^verbatim>\<open>refreshFolder(folder)\<close> up to its await.\<close>

definition refreshFolder :: "env \<Rightarrow> string \<Rightarrow> server \<Rightarrow> server" where
  "refreshFolder e folder s =
     send_command (RefreshFolderTask folder) (listObjects_command (folder_args e folder)) s"

text \<open>
  \<^verbatim>\<open>refreshFolder\<close> after its await. The count logged is the length of
  \<^verbatim>\<open>cachedFolders[folder]\<close>, which reads back the array just assigned.
\<close>

definition refreshFolder_resume :: "env \<Rightarrow> string \<Rightarrow> s3_outcome \<Rightarrow> server \<Rightarrow> server" where
  "refreshFolder_resume e folder r s =
     (case listObjects_settle r of
        (logs, Inr data) \<Rightarrow>
          (let images = to_entries e data
           in s\<lparr>cachedFolders := set_property (cachedFolders s) folder images,
                console := console s @ logs @ [CachedFolder (length images) folder]\<rparr>)
      | (logs, Inl err) \<Rightarrow> s\<lparr>console := console s @ logs @ [FailedFolder folder err]\<rparr>)"

text \<open>The \<open>i\<close>-th awaited call settles with outcome \<open>r\<close>; nothing happens when there is none.\<close>

definition complete :: "env \<Rightarrow> nat \<Rightarrow> s3_outcome \<Rightarrow> server \<Rightarrow> server" where
  "complete e i r s =
     (if i < length (pending s) then
        (let s' = s\<lparr>pending := take i (pending s) @ drop (Suc i) (pending s)\<rparr>
         in case fst (pending s ! i) of
              RefreshImagesTask \<Rightarrow> refreshImages_resume e r s'
            | RefreshFolderTask folder \<Rightarrow> refreshFolder_resume e folder r s')
      else s)"

text \<open>\<^verbatim>\<open>app.get("/")\<close>\<close>

definition get_root :: http_response where
  "get_root = \<lparr>status = 200, body = MessageObj ''S3 Image Server is Running...''\<rparr>"

text \<open>\<^verbatim>\<open>app.get("/api/images")\<close> of the caching server: \<^verbatim>\<open>res.json(cachedImages)\<close>.\<close>

definition cached_get_images :: "server \<Rightarrow> http_response \<times> server" where
  "cached_get_images s = (\<lparr>status = 200, body = Listing (cachedImages s)\<rparr>, s)"

text \<open>
  The folder route of the caching server; \<open>folder\<close> is \<^verbatim>\<open>req.params[0]\<close>.
\<close>

definition cached_get_folder :: "env \<Rightarrow> string \<Rightarrow> server \<Rightarrow> http_response \<times> server" where
  "cached_get_folder e folder s =
     (if \<not> truthy (get_property (cachedFolders s) folder)
      then (\<lparr>status = 200, body = Listing []\<rparr>, refreshFolder e folder s)
      else (\<lparr>status = 200, body = get_property (cachedFolders s) folder\<rparr>, s))"

text \<open>The error middleware, shared by both servers.\<close>

definition error_middleware :: "s3_error \<Rightarrow> log_line list \<times> http_response" where
  "error_middleware err =
     ([ServerError err], \<lparr>status = 500, body = ErrorObj ''Internal server error''\<rparr>)"

text \<open>The callback of the second timer: \<^verbatim>\<open>Object.keys(cachedFolders).forEach(refreshFolder)\<close>.\<close>

definition refresh_folders :: "env \<Rightarrow> server \<Rightarrow> server" where
  "refresh_folders e s = foldl (\<lambda>s' folder. refreshFolder e folder s') s (object_keys (cachedFolders s))"

text \<open>What the event loop can run next.\<close>

datatype event =
    GetRoot
  | GetImages
  | GetFolder string
  | TickImages
  | TickFolders
  | Complete nat s3_outcome

fun step :: "env \<Rightarrow> event \<Rightarrow> server \<Rightarrow> http_response option \<times> server" where
  "step e GetRoot s = (Some get_root, s)"
| "step e GetImages s = (Some (fst (cached_get_images s)), snd (cached_get_images s))"
| "step e (GetFolder folder) s =
     (Some (fst (cached_get_folder e folder s)), snd (cached_get_folder e folder s))"
| "step e TickImages s = (None, refreshImages e s)"
| "step e TickFolders s = (None, refresh_folders e s)"
| "step e (Complete i r) s = (None, complete e i r s)"

fun run :: "env \<Rightarrow> event list \<Rightarrow> server \<Rightarrow> server" where
  "run e [] s = s"
| "run e (ev # evs) s = run e evs (snd (step e ev s))"

fun responses :: "env \<Rightarrow> event list \<Rightarrow> server \<Rightarrow> http_response list" where
  "responses e [] s = []"
| "responses e (ev # evs) s =
     (case fst (step e ev s) of None \<Rightarrow> [] | Some r \<Rightarrow> [r]) @ responses e evs (snd (step e ev s))"

section \<open>Start-up\<close>

definition PORT :: "env \<Rightarrow> port" where
  "PORT e = (if env_falsy e ''PORT'' then NumPort 5000 else EnvPort (template (e ''PORT'')))"

datatype timer_callback = TimerRefreshImages | TimerRefreshFolders

text \<open>The effects of loading a module, in program order.\<close>

datatype effect =
    LogLine log_line
  | ProcessExit nat
  | SendCommand ListObjectsV2Input
  | SetInterval timer_callback nat
  | Listen port

text \<open>
  part_000: the check of the environment, the first \<^verbatim>\<open>refreshImages()\<close>, the two
  \<^verbatim>\<open>setInterval(_, 45 * 1000)\<close>, then \<^verbatim>\<open>app.listen(PORT, _)\<close> and its callback's log.
\<close>

definition caching_startup :: "env \<Rightarrow> effect list" where
  "caching_startup e =
     (case first_missing e requiredEnv of
        Some k \<Rightarrow> [LogLine (MissingEnv k), ProcessExit 1]
      | None \<Rightarrow>
          [SendCommand (listObjects_command (images_args e)),
           SetInterval TimerRefreshImages (45 * 1000),
           SetInterval TimerRefreshFolders (45 * 1000),
           Listen (PORT e),
           LogLine (Running (PORT e))])"

text \<open>The state of the caching server once the module is loaded.\<close>

definition booted :: "env \<Rightarrow> server" where
  "booted e = refreshImages e initial_server"

text \<open>What a timer's callback runs.\<close>

fun tick :: "timer_callback \<Rightarrow> event" where
  "tick TimerRefreshImages = TickImages"
| "tick TimerRefreshFolders = TickFolders"

section \<open>The direct server (server.js)\<close>

text \<open>server.js: the same check, no cache and no timer.\<close>

definition direct_startup :: "env \<Rightarrow> effect list" where
  "direct_startup e =
     (case first_missing e requiredEnv of
        Some k \<Rightarrow> [LogLine (MissingEnv k), ProcessExit 1]
      | None \<Rightarrow> [Listen (PORT e), LogLine (Running (PORT e))])"

text \<open>
  A handler wrapped in \<^verbatim>\<open>asyncHandler\<close> that awaits \<^verbatim>\<open>listObjects(args)\<close>: the lines
  logged, the commands sent and the response. A rejection goes to the error middleware.
\<close>

definition direct_list :: "env \<Rightarrow> s3_store \<Rightarrow> listObjects_args
    \<Rightarrow> log_line list \<times> ListObjectsV2Input list \<times> http_response" where
  "direct_list e store a =
     (case listObjects store a of
        (logs, Inr data) \<Rightarrow>
          (logs, [listObjects_command a], \<lparr>status = 200, body = Listing (to_entries e data)\<rparr>)
      | (logs, Inl err) \<Rightarrow>
          (logs @ fst (error_middleware err), [listObjects_command a], snd (error_middleware err)))"

definition direct_get_images :: "env \<Rightarrow> s3_store
    \<Rightarrow> log_line list \<times> ListObjectsV2Input list \<times> http_response" where
  "direct_get_images e store = direct_list e store (images_args e)"

definition direct_get_folder :: "env \<Rightarrow> s3_store \<Rightarrow> string
    \<Rightarrow> log_line list \<times> ListObjectsV2Input list \<times> http_response" where
  "direct_get_folder e store folderPath = direct_list e store (folder_args e folderPath)"

section \<open>A simulated backing store\<close>

text \<open>
  A stand-in for S3 holding a list of objects: a request gets the objects whose key starts
  with the prefix, at most \<open>MaxKeys\<close> of them from the position the continuation token
  names, and a token for the next page while more remain. The token for position \<open>n\<close>
  is a string of length \<open>n\<close>.
\<close>

definition starts_with :: "string \<Rightarrow> string \<Rightarrow> bool" where
  "starts_with p s = (take (length p) s = p)"

definition s3_sim :: "S3Object list \<Rightarrow> s3_store" where
  "s3_sim objs cmd =
     (let matching = filter (\<lambda>f. starts_with (Prefix cmd) (Key f)) objs;
          start = (case ContinuationToken cmd of None \<Rightarrow> 0 | Some t \<Rightarrow> length t);
          page = take (MaxKeys cmd) (drop start matching);
          more = (start + MaxKeys cmd < length matching)
      in Inr \<lparr>Contents = (if page = [] then None else Some page),
              IsTruncated = more,
              NextContinuationToken =
                (if more then Some (replicate (start + MaxKeys cmd) (CHR ''t'')) else None)\<rparr>)"

definition s3_down :: s3_store where
  "s3_down cmd = Inl (S3Error ''unavailable'')"

text \<open>A refresh run to its end against a store: the call is sent and settles at once.\<close>

definition settle_first :: "env \<Rightarrow> s3_store \<Rightarrow> server \<Rightarrow> server" where
  "settle_first e store s =
     (case pending s of [] \<Rightarrow> s | (t, cmd) # rest \<Rightarrow> complete e 0 (store cmd) s)"

definition settle_all :: "env \<Rightarrow> s3_store \<Rightarrow> server \<Rightarrow> server" where
  "settle_all e store s = foldl (\<lambda>s' p. settle_first e store s') s (pending s)"

text \<open>
  The listing the specification describes for the gateway: follow the continuation token
  from page to page until none is returned, and concatenate the pages. The first argument
  bounds the number of pages; None means the bound was reached.
\<close>

fun listAll_spec :: "nat \<Rightarrow> s3_store \<Rightarrow> ListObjectsV2Input \<Rightarrow> (s3_error + S3Object list) option" where
  "listAll_spec 0 store cmd = None"
| "listAll_spec (Suc n) store cmd =
     (case store cmd of
        Inl err \<Rightarrow> Some (Inl err)
      | Inr data \<Rightarrow>
          (let files = (case Contents data of None \<Rightarrow> [] | Some fs \<Rightarrow> fs)
           in case NextContinuationToken data of
                None \<Rightarrow> Some (Inr files)
              | Some t \<Rightarrow>
                  (case listAll_spec n store (cmd\<lparr>ContinuationToken := Some t\<rparr>) of
                     None \<Rightarrow> None
                   | Some (Inl err) \<Rightarrow> Some (Inl err)
                   | Some (Inr rest) \<Rightarrow> Some (Inr (files @ rest)))))"

text \<open>A bucket of 1001 objects with distinct keys, and the environment of the examples.\<close>

definition bucket_1001 :: "S3Object list" where
  "bucket_1001 = map (\<lambda>n. \<lparr>Key = replicate n (CHR ''k'')\<rparr>) [1..<1002]"

definition example_env :: env where
  "example_env =
     [''AWS_BUCKET'' \<mapsto> ''obsio'', ''AWS_REGION'' \<mapsto> ''ap-south-1'',
      ''AWS_ACCESS_KEY'' \<mapsto> ''AKIA'', ''AWS_SECRET_KEY'' \<mapsto> ''secret'']"

definition example_bucket :: "S3Object list" where
  "example_bucket = [\<lparr>Key = ''a/1.jpg''\<rparr>, \<lparr>Key = ''a/2.jpg''\<rparr>, \<lparr>Key = ''b/1.jpg''\<rparr>]"

text \<open>The page the simulated store returns for the folder \<open>a\<close> of the example bucket.\<close>

definition example_page :: ListObjectsV2Output where
  "example_page =
     \<lparr>Contents = Some [\<lparr>Key = ''a/1.jpg''\<rparr>, \<lparr>Key = ''a/2.jpg''\<rparr>], IsTruncated = False,
      NextContinuationToken = None\<rparr>"

text \<open>The state after start-up and one request for the folder \<open>a\<close>: two calls are awaited.\<close>

definition example_state :: server where
  "example_state = run example_env [GetFolder ''a''] (booted example_env)"

section \<open>Reachable states and derived notions\<close>

text \<open>
  A property name that a lookup on \<^verbatim>\<open>{}\<close> finds on \<^verbatim>\<open>Object.prototype\<close>.
\<close>

definition inherited :: "string \<Rightarrow> bool" where
  "inherited k = (k = ''__proto__'' \<or> k \<in> set object_prototype_methods)"

fun task_plain :: "task \<Rightarrow> bool" where
  "task_plain RefreshImagesTask = True"
| "task_plain (RefreshFolderTask folder) = (\<not> inherited folder)"

text \<open>
  The shape of the cache object in every state the server reaches: its prototype is still
  \<^verbatim>\<open>Object.prototype\<close>, and neither an own key nor the folder of an awaited refresh is an
  inherited name.
\<close>

definition plain_cache :: "server \<Rightarrow> bool" where
  "plain_cache s =
     (proto (cachedFolders s) = ObjectPrototype
      \<and> list_all (\<lambda>p. \<not> inherited (fst p)) (own (cachedFolders s))
      \<and> list_all (\<lambda>p. task_plain (fst p)) (pending s))"

text \<open>An entry whose \<open>url\<close> is the one derived from its \<open>key\<close>.\<close>

definition derived :: "env \<Rightarrow> ObjectEntry \<Rightarrow> bool" where
  "derived e x = (url x = object_url e (key x))"

definition derived_body :: "env \<Rightarrow> js_value \<Rightarrow> bool" where
  "derived_body e v = (case v of Listing xs \<Rightarrow> list_all (derived e) xs | _ \<Rightarrow> True)"

definition derived_cache :: "env \<Rightarrow> server \<Rightarrow> bool" where
  "derived_cache e s =
     (list_all (derived e) (cachedImages s)
      \<and> list_all (\<lambda>p. list_all (derived e) (snd p)) (own (cachedFolders s)))"

text \<open>
  The entries of the latest successful full listing along a trace of events, starting
  from \<open>acc\<close>: a full refresh that settles with a listing replaces them, nothing else does.
\<close>

fun latest_full_listing :: "env \<Rightarrow> ObjectEntry list \<Rightarrow> event list \<Rightarrow> server \<Rightarrow> ObjectEntry list" where
  "latest_full_listing e acc [] s = acc"
| "latest_full_listing e acc (ev # evs) s =
     latest_full_listing e
       (case ev of
          Complete i (Inr data) \<Rightarrow>
            if i < length (pending s) \<and> fst (pending s ! i) = RefreshImagesTask
            then to_entries e data else acc
        | _ \<Rightarrow> acc)
       evs (snd (step e ev s))"

text \<open>The timers a module registers while it loads.\<close>

fun intervals :: "effect list \<Rightarrow> (timer_callback \<times> nat) list" where
  "intervals [] = []"
| "intervals (SetInterval cb ms # rest) = (cb, ms) # intervals rest"
| "intervals (other # rest) = intervals rest"

section \<open>Basic facts about the operations\<close>

lemma listObjects_command_images:
  "listObjects_command (images_args e) =
     \<lparr>Bucket = e ''AWS_BUCKET'', Prefix = [], MaxKeys = 1000, ContinuationToken = None\<rparr>"
  by (simp add: listObjects_command_def images_args_def)

lemma listObjects_command_folder:
  "listObjects_command (folder_args e folder) =
     \<lparr>Bucket = e ''AWS_BUCKET'', Prefix = folder @ ''/'', MaxKeys = 1000,
      ContinuationToken = None\<rparr>"
  by (simp add: listObjects_command_def folder_args_def)

lemma refreshImages_resume_failure:
  "refreshImages_resume e (Inl err) s = s\<lparr>console := console s @ [S3ErrorLog err, FailedImages err]\<rparr>"
  by (simp add: refreshImages_resume_def listObjects_settle_def)

lemma refreshFolder_resume_failure:
  "refreshFolder_resume e folder (Inl err) s =
     s\<lparr>console := console s @ [S3ErrorLog err, FailedFolder folder err]\<rparr>"
  by (simp add: refreshFolder_resume_def listObjects_settle_def)

lemma refreshImages_resume_success:
  "refreshImages_resume e (Inr data) s =
     s\<lparr>cachedImages := to_entries e data,
       console := console s @ [CachedImages (length (to_entries e data))]\<rparr>"
  by (simp add: refreshImages_resume_def listObjects_settle_def Let_def)

lemma refreshFolder_resume_success:
  "refreshFolder_resume e folder (Inr data) s =
     s\<lparr>cachedFolders := set_property (cachedFolders s) folder (to_entries e data),
       console := console s @ [CachedFolder (length (to_entries e data)) folder]\<rparr>"
  by (simp add: refreshFolder_resume_def listObjects_settle_def Let_def)

lemma complete_failure_caches:
  "cachedImages (complete e i (Inl err) s) = cachedImages s"
  "cachedFolders (complete e i (Inl err) s) = cachedFolders s"
  by (simp_all add: complete_def Let_def refreshImages_resume_failure
      refreshFolder_resume_failure split: task.splits)

lemma refresh_start_frame:
  "cachedImages (refreshImages e s) = cachedImages s"
  "cachedFolders (refreshImages e s) = cachedFolders s"
  "cachedImages (refreshFolder e folder s) = cachedImages s"
  "cachedFolders (refreshFolder e folder s) = cachedFolders s"
  by (simp_all add: refreshImages_def refreshFolder_def send_command_def)

lemma refresh_start_pending:
  "pending (refreshImages e s) = pending s @ [(RefreshImagesTask, listObjects_command (images_args e))]"
  "pending (refreshFolder e folder s) =
     pending s @ [(RefreshFolderTask folder, listObjects_command (folder_args e folder))]"
  "sent (refreshImages e s) = sent s @ [listObjects_command (images_args e)]"
  "sent (refreshFolder e folder s) = sent s @ [listObjects_command (folder_args e folder)]"
  by (simp_all add: refreshImages_def refreshFolder_def send_command_def)

section \<open>A failed refresh keeps the cache\<close>

text \<open>
  C3: when the refresh of a slot fails, the slot keeps its value. Whichever awaited call
  settles with an error, \<open>cachedImages\<close> and \<open>cachedFolders\<close> are what they were; a
  whole failed refresh (the call sent, then its rejection) leaves both variables as they
  were, so every lookup \<open>cachedFolders[k]\<close> gives what it gave before and a folder that was
  absent stays absent. Only the console grows, by the two error lines.
\<close>

theorem failed_refresh_retains_cache:
  "cachedImages (complete e i (Inl err) s) = cachedImages s
   \<and> cachedFolders (complete e i (Inl err) s) = cachedFolders s
   \<and> cachedImages (complete e (length (pending s)) (Inl err) (refreshImages e s)) = cachedImages s
   \<and> cachedFolders (complete e (length (pending s)) (Inl err) (refreshImages e s)) = cachedFolders s
   \<and> cachedImages (complete e (length (pending s)) (Inl err) (refreshFolder e folder s)) = cachedImages s
   \<and> cachedFolders (complete e (length (pending s)) (Inl err) (refreshFolder e folder s)) = cachedFolders s
   \<and> get_property (cachedFolders (complete e (length (pending s)) (Inl err) (refreshFolder e folder s))) k
       = get_property (cachedFolders s) k
   \<and> console (complete e (length (pending s)) (Inl err) (refreshFolder e folder s))
       = console s @ [S3ErrorLog err, FailedFolder folder err]
   \<and> console (complete e (length (pending s)) (Inl err) (refreshImages e s))
       = console s @ [S3ErrorLog err, FailedImages err]"
  by (simp add: complete_failure_caches refresh_start_frame)
     (simp add: complete_def Let_def refresh_start_pending refreshImages_resume_failure
       refreshFolder_resume_failure refreshImages_def refreshFolder_def send_command_def)

section \<open>Start-up with a missing variable\<close>

lemma first_missing_None: "first_missing e ks = None \<longleftrightarrow> (\<forall>k \<in> set ks. \<not> env_falsy e k)"
  by (induction ks) auto

lemma first_missing_Some: "first_missing e ks = Some k \<Longrightarrow> k \<in> set ks \<and> env_falsy e k"
  by (induction ks) (auto split: if_splits)

text \<open>
  C9: when one of the four required variables is missing (undefined or the empty string,
  which is what \<^verbatim>\<open>!process.env[key]\<close> tests), loading the module logs the diagnostic for
  the first such variable and exits with code 1, and nothing else happens: no listener is
  bound. When all four are present, start-up runs through to \<^verbatim>\<open>app.listen\<close>. Both servers
  behave so.
\<close>

theorem startup_requires_configuration:
  "((\<exists>k \<in> set requiredEnv. env_falsy e k) \<longrightarrow>
      (\<exists>k \<in> set requiredEnv. env_falsy e k
         \<and> caching_startup e = [LogLine (MissingEnv k), ProcessExit 1]
         \<and> direct_startup e = [LogLine (MissingEnv k), ProcessExit 1]))
   \<and> ((\<forall>k \<in> set requiredEnv. \<not> env_falsy e k) \<longrightarrow>
        caching_startup e =
          [SendCommand (listObjects_command (images_args e)),
           SetInterval TimerRefreshImages 45000, SetInterval TimerRefreshFolders 45000,
           Listen (PORT e), LogLine (Running (PORT e))]
        \<and> direct_startup e = [Listen (PORT e), LogLine (Running (PORT e))])"
proof (intro conjI impI)
  assume "\<exists>k \<in> set requiredEnv. env_falsy e k"
  then have "first_missing e requiredEnv \<noteq> None"
    by (simp add: first_missing_None)
  then obtain k where k: "first_missing e requiredEnv = Some k"
    by blast
  from first_missing_Some [OF k] k
  show "\<exists>k \<in> set requiredEnv. env_falsy e k
         \<and> caching_startup e = [LogLine (MissingEnv k), ProcessExit 1]
         \<and> direct_startup e = [LogLine (MissingEnv k), ProcessExit 1]"
    by (auto simp: caching_startup_def direct_startup_def)
next
  assume "\<forall>k \<in> set requiredEnv. \<not> env_falsy e k"
  then have n: "first_missing e requiredEnv = None"
    by (simp add: first_missing_None)
  show "caching_startup e =
          [SendCommand (listObjects_command (images_args e)),
           SetInterval TimerRefreshImages 45000, SetInterval TimerRefreshFolders 45000,
           Listen (PORT e), LogLine (Running (PORT e))]"
    by (simp add: caching_startup_def n)
  show "direct_startup e = [Listen (PORT e), LogLine (Running (PORT e))]"
    by (simp add: direct_startup_def n)
qed

theorem startup_requires_configuration_witness:
  "list_all (\<lambda>k. \<not> env_falsy example_env k) requiredEnv
   \<and> caching_startup example_env =
       [SendCommand \<lparr>Bucket = Some ''obsio'', Prefix = [], MaxKeys = 1000, ContinuationToken = None\<rparr>,
        SetInterval TimerRefreshImages 45000, SetInterval TimerRefreshFolders 45000,
        Listen (NumPort 5000), LogLine (Running (NumPort 5000))]
   \<and> direct_startup example_env = [Listen (NumPort 5000), LogLine (Running (NumPort 5000))]
   \<and> env_falsy (example_env(''AWS_SECRET_KEY'' \<mapsto> [])) ''AWS_SECRET_KEY''
   \<and> caching_startup (example_env(''AWS_SECRET_KEY'' \<mapsto> []))
       = [LogLine (MissingEnv ''AWS_SECRET_KEY''), ProcessExit 1]
   \<and> direct_startup (example_env(''AWS_REGION'' := None))
       = [LogLine (MissingEnv ''AWS_REGION''), ProcessExit 1]"
proof -
  have present: "\<forall>k \<in> set requiredEnv. \<not> env_falsy example_env k"
    by (simp add: requiredEnv_def env_falsy_def example_env_def)
  have port: "PORT example_env = NumPort 5000"
    by (simp add: PORT_def env_falsy_def example_env_def)
  have cmd: "listObjects_command (images_args example_env)
      = \<lparr>Bucket = Some ''obsio'', Prefix = [], MaxKeys = 1000, ContinuationToken = None\<rparr>"
    by (simp add: listObjects_command_images example_env_def)
  have e1: "caching_startup (example_env(''AWS_SECRET_KEY'' \<mapsto> []))
       = [LogLine (MissingEnv ''AWS_SECRET_KEY''), ProcessExit 1]"
    by (simp add: caching_startup_def requiredEnv_def env_falsy_def example_env_def)
  have e2: "direct_startup (example_env(''AWS_REGION'' := None))
       = [LogLine (MissingEnv ''AWS_REGION''), ProcessExit 1]"
    by (simp add: direct_startup_def requiredEnv_def env_falsy_def example_env_def)
  have e3: "env_falsy (example_env(''AWS_SECRET_KEY'' \<mapsto> [])) ''AWS_SECRET_KEY''"
    by (simp add: env_falsy_def)
  from startup_requires_configuration [of example_env] present port cmd e1 e2 e3
  show ?thesis
    by (simp add: list_all_iff)
qed

section \<open>The gateway lists one page\<close>

lemma length_bucket_1001: "length bucket_1001 = 1001"
  by (simp add: bucket_1001_def)

lemma take_bucket_1001:
  "take 1000 bucket_1001 = map (\<lambda>n. \<lparr>Key = replicate n (CHR ''k'')\<rparr>) [1..<1001]"
  by (simp add: bucket_1001_def take_map take_upt)

lemma upt_1001: "[1001..<1002] = [1001::nat]"
proof -
  have "[1001..<Suc 1001] = [1001::nat]"
    by (simp only: upt_Suc upt_conv_Nil) simp
  then show ?thesis by simp
qed

lemma drop_bucket_1001: "drop 1000 bucket_1001 = [\<lparr>Key = replicate 1001 (CHR ''k'')\<rparr>]"
  by (simp add: bucket_1001_def drop_map drop_upt upt_1001)

lemma take_bucket_1001_nonempty: "take 1000 bucket_1001 \<noteq> []"
proof
  assume "take 1000 bucket_1001 = []"
  then have "length (take 1000 bucket_1001) = 0" by simp
  then show False by (simp add: length_bucket_1001)
qed

lemma s3_sim_first_page:
  "s3_sim bucket_1001 \<lparr>Bucket = b, Prefix = [], MaxKeys = 1000, ContinuationToken = None\<rparr> =
     Inr \<lparr>Contents = Some (take 1000 bucket_1001), IsTruncated = True,
          NextContinuationToken = Some (replicate 1000 (CHR ''t''))\<rparr>"
  using take_bucket_1001_nonempty
  by (simp add: s3_sim_def starts_with_def Let_def length_bucket_1001)

lemma s3_sim_second_page:
  "s3_sim bucket_1001
     \<lparr>Bucket = b, Prefix = [], MaxKeys = 1000,
      ContinuationToken = Some (replicate 1000 (CHR ''t''))\<rparr> =
     Inr \<lparr>Contents = Some (drop 1000 bucket_1001), IsTruncated = False,
          NextContinuationToken = None\<rparr>"
  by (simp add: s3_sim_def starts_with_def Let_def length_bucket_1001 drop_bucket_1001)

lemma settle_all_single:
  "pending s = [(t, cmd)] \<Longrightarrow> settle_all e store s = complete e 0 (store cmd) s"
  by (simp add: settle_all_def settle_first_def)

lemma refreshImages_settled:
  "settle_all e store (refreshImages e initial_server) =
     refreshImages_resume e (store (listObjects_command (images_args e)))
       (initial_server\<lparr>sent := [listObjects_command (images_args e)]\<rparr>)"
  by (simp add: settle_all_single [where t = RefreshImagesTask and cmd = "listObjects_command (images_args e)"]
      refreshImages_def send_command_def initial_server_def complete_def Let_def)

lemma refreshFolder_settled:
  "settle_all e store (refreshFolder e folder initial_server) =
     refreshFolder_resume e folder (store (listObjects_command (folder_args e folder)))
       (initial_server\<lparr>sent := [listObjects_command (folder_args e folder)]\<rparr>)"
  by (simp add: settle_all_single [where t = "RefreshFolderTask folder"
        and cmd = "listObjects_command (folder_args e folder)"]
      refreshFolder_def send_command_def initial_server_def complete_def Let_def)

lemma map_key_to_entry: "map key (map (to_entry e) files) = map Key files"
  by (simp add: to_entry_def)

text \<open>
  C1 as stated fails. Against a simulated store holding 1001 objects the first response
  carries a continuation token, and following the token as the specification describes
  yields all 1001 objects; the full refresh sends one command only, caches the 1000
  entries of the first page, and the 1001st key is in none of them. The direct server's
  route returns the same 1000 entries.
\<close>

theorem listing_stops_after_first_page_counterexample:
  "s3_sim bucket_1001 (listObjects_command (images_args example_env)) =
     Inr \<lparr>Contents = Some (take 1000 bucket_1001), IsTruncated = True,
          NextContinuationToken = Some (replicate 1000 (CHR ''t''))\<rparr>
   \<and> listAll_spec 2 (s3_sim bucket_1001) (listObjects_command (images_args example_env))
       = Some (Inr bucket_1001)
   \<and> sent (settle_all example_env (s3_sim bucket_1001) (refreshImages example_env initial_server))
       = [listObjects_command (images_args example_env)]
   \<and> cachedImages (settle_all example_env (s3_sim bucket_1001) (refreshImages example_env initial_server))
       = map (to_entry example_env) (take 1000 bucket_1001)
   \<and> snd (snd (direct_get_images example_env (s3_sim bucket_1001)))
       = \<lparr>status = 200, body = Listing (map (to_entry example_env) (take 1000 bucket_1001))\<rparr>
   \<and> \<lparr>Key = replicate 1001 (CHR ''k'')\<rparr> \<in> set bucket_1001
   \<and> replicate 1001 (CHR ''k'') \<notin> set (map key (map (to_entry example_env) (take 1000 bucket_1001)))"
proof -
  let ?cmd = "listObjects_command (images_args example_env)"
  have page1: "s3_sim bucket_1001 ?cmd =
     Inr \<lparr>Contents = Some (take 1000 bucket_1001), IsTruncated = True,
          NextContinuationToken = Some (replicate 1000 (CHR ''t''))\<rparr>"
    by (simp add: listObjects_command_images s3_sim_first_page)
  have page2: "s3_sim bucket_1001 (?cmd\<lparr>ContinuationToken := Some (replicate 1000 (CHR ''t''))\<rparr>) =
     Inr \<lparr>Contents = Some (drop 1000 bucket_1001), IsTruncated = False,
          NextContinuationToken = None\<rparr>"
    by (simp add: listObjects_command_images s3_sim_second_page)
  have two: "(2::nat) = Suc (Suc 0)"
    by simp
  have all: "listAll_spec 2 (s3_sim bucket_1001) ?cmd = Some (Inr bucket_1001)"
    unfolding two by (simp add: page1 page2 del: One_nat_def)
  have st: "settle_all example_env (s3_sim bucket_1001) (refreshImages example_env initial_server)
      = refreshImages_resume example_env (s3_sim bucket_1001 ?cmd) (initial_server\<lparr>sent := [?cmd]\<rparr>)"
    by (rule refreshImages_settled)
  have sent1: "sent (settle_all example_env (s3_sim bucket_1001) (refreshImages example_env initial_server))
      = [?cmd]"
    unfolding st page1 by (simp add: refreshImages_resume_success)
  have imgs: "cachedImages (settle_all example_env (s3_sim bucket_1001) (refreshImages example_env initial_server))
      = map (to_entry example_env) (take 1000 bucket_1001)"
    unfolding st page1 by (simp add: refreshImages_resume_success to_entries_def)
  have direct: "snd (snd (direct_get_images example_env (s3_sim bucket_1001)))
       = \<lparr>status = 200, body = Listing (map (to_entry example_env) (take 1000 bucket_1001))\<rparr>"
    by (simp add: direct_get_images_def direct_list_def listObjects_def page1
        listObjects_settle_def to_entries_def)
  have last_in: "\<lparr>Key = replicate 1001 (CHR ''k'')\<rparr> \<in> set bucket_1001"
    using set_drop_subset [of 1000 bucket_1001] by (simp add: drop_bucket_1001)
  have missing: "replicate 1001 (CHR ''k'') \<notin> set (map key (map (to_entry example_env) (take 1000 bucket_1001)))"
    unfolding map_key_to_entry take_bucket_1001 by (auto simp: comp_def)
  from page1 all sent1 imgs direct last_in missing show ?thesis
    by blast
qed

text \<open>
  C1 amended: a listing is one \<^verbatim>\<open>s3.send\<close>. For every store, a full refresh run to its
  end sends exactly one command (no prefix, \<open>MaxKeys\<close> 1000, no continuation token), leaves
  no call awaited, and caches the entries of that one response; a folder refresh does the
  same with the prefix \<open>folder/\<close>; the routes of the direct server send the same single
  command and answer with the entries of its response. The entries do not depend on
  \<open>IsTruncated\<close> or \<open>NextContinuationToken\<close>, which are never read.
\<close>

theorem listing_is_one_call:
  "sent (settle_all e store (refreshImages e initial_server))
     = [\<lparr>Bucket = e ''AWS_BUCKET'', Prefix = [], MaxKeys = 1000, ContinuationToken = None\<rparr>]
   \<and> pending (settle_all e store (refreshImages e initial_server)) = []
   \<and> cachedImages (settle_all e store (refreshImages e initial_server))
       = (case store \<lparr>Bucket = e ''AWS_BUCKET'', Prefix = [], MaxKeys = 1000, ContinuationToken = None\<rparr> of
            Inl err \<Rightarrow> []
          | Inr data \<Rightarrow> to_entries e data)
   \<and> sent (settle_all e store (refreshFolder e folder initial_server))
       = [\<lparr>Bucket = e ''AWS_BUCKET'', Prefix = folder @ ''/'', MaxKeys = 1000,
           ContinuationToken = None\<rparr>]
   \<and> pending (settle_all e store (refreshFolder e folder initial_server)) = []
   \<and> cachedFolders (settle_all e store (refreshFolder e folder initial_server))
       = (case store \<lparr>Bucket = e ''AWS_BUCKET'', Prefix = folder @ ''/'', MaxKeys = 1000,
                      ContinuationToken = None\<rparr> of
            Inl err \<Rightarrow> \<lparr>own = [], proto = ObjectPrototype\<rparr>
          | Inr data \<Rightarrow> set_property \<lparr>own = [], proto = ObjectPrototype\<rparr> folder (to_entries e data))
   \<and> direct_get_images e store
       = (case store \<lparr>Bucket = e ''AWS_BUCKET'', Prefix = [], MaxKeys = 1000, ContinuationToken = None\<rparr> of
            Inl err \<Rightarrow>
              ([S3ErrorLog err, ServerError err],
               [\<lparr>Bucket = e ''AWS_BUCKET'', Prefix = [], MaxKeys = 1000, ContinuationToken = None\<rparr>],
               \<lparr>status = 500, body = ErrorObj ''Internal server error''\<rparr>)
          | Inr data \<Rightarrow>
              ([],
               [\<lparr>Bucket = e ''AWS_BUCKET'', Prefix = [], MaxKeys = 1000, ContinuationToken = None\<rparr>],
               \<lparr>status = 200, body = Listing (to_entries e data)\<rparr>))
   \<and> direct_get_folder e store folder
       = (case store \<lparr>Bucket = e ''AWS_BUCKET'', Prefix = folder @ ''/'', MaxKeys = 1000,
                      ContinuationToken = None\<rparr> of
            Inl err \<Rightarrow>
              ([S3ErrorLog err, ServerError err],
               [\<lparr>Bucket = e ''AWS_BUCKET'', Prefix = folder @ ''/'', MaxKeys = 1000,
                 ContinuationToken = None\<rparr>],
               \<lparr>status = 500, body = ErrorObj ''Internal server error''\<rparr>)
          | Inr data \<Rightarrow>
              ([],
               [\<lparr>Bucket = e ''AWS_BUCKET'', Prefix = folder @ ''/'', MaxKeys = 1000,
                 ContinuationToken = None\<rparr>],
               \<lparr>status = 200, body = Listing (to_entries e data)\<rparr>))
   \<and> to_entries e (data\<lparr>IsTruncated := trunc, NextContinuationToken := token\<rparr>) = to_entries e data"
proof -
  have img: "settle_all e store (refreshImages e initial_server) =
     refreshImages_resume e (store (listObjects_command (images_args e)))
       (initial_server\<lparr>sent := [listObjects_command (images_args e)]\<rparr>)"
    by (rule refreshImages_settled)
  have fol: "settle_all e store (refreshFolder e folder initial_server) =
     refreshFolder_resume e folder (store (listObjects_command (folder_args e folder)))
       (initial_server\<lparr>sent := [listObjects_command (folder_args e folder)]\<rparr>)"
    by (rule refreshFolder_settled)
  have a: "sent (settle_all e store (refreshImages e initial_server))
     = [\<lparr>Bucket = e ''AWS_BUCKET'', Prefix = [], MaxKeys = 1000, ContinuationToken = None\<rparr>]"
    unfolding img
    by (cases "store (listObjects_command (images_args e))")
       (simp_all add: refreshImages_resume_success refreshImages_resume_failure
         listObjects_command_images)
  have b: "pending (settle_all e store (refreshImages e initial_server)) = []"
    unfolding img
    by (cases "store (listObjects_command (images_args e))")
       (simp_all add: refreshImages_resume_success refreshImages_resume_failure initial_server_def)
  have c: "cachedImages (settle_all e store (refreshImages e initial_server))
       = (case store \<lparr>Bucket = e ''AWS_BUCKET'', Prefix = [], MaxKeys = 1000, ContinuationToken = None\<rparr> of
            Inl err \<Rightarrow> []
          | Inr data \<Rightarrow> to_entries e data)"
    unfolding img listObjects_command_images
    by (simp add: refreshImages_resume_success refreshImages_resume_failure initial_server_def
        split: sum.splits)
  have d: "sent (settle_all e store (refreshFolder e folder initial_server))
       = [\<lparr>Bucket = e ''AWS_BUCKET'', Prefix = folder @ ''/'', MaxKeys = 1000,
           ContinuationToken = None\<rparr>]"
    unfolding fol
    by (cases "store (listObjects_command (folder_args e folder))")
       (simp_all add: refreshFolder_resume_success refreshFolder_resume_failure
         listObjects_command_folder)
  have f: "pending (settle_all e store (refreshFolder e folder initial_server)) = []"
    unfolding fol
    by (cases "store (listObjects_command (folder_args e folder))")
       (simp_all add: refreshFolder_resume_success refreshFolder_resume_failure initial_server_def)
  have g: "cachedFolders (settle_all e store (refreshFolder e folder initial_server))
       = (case store \<lparr>Bucket = e ''AWS_BUCKET'', Prefix = folder @ ''/'', MaxKeys = 1000,
                      ContinuationToken = None\<rparr> of
            Inl err \<Rightarrow> \<lparr>own = [], proto = ObjectPrototype\<rparr>
          | Inr data \<Rightarrow> set_property \<lparr>own = [], proto = ObjectPrototype\<rparr> folder (to_entries e data))"
    unfolding fol listObjects_command_folder
    by (simp add: refreshFolder_resume_success refreshFolder_resume_failure initial_server_def
        split: sum.splits)
  have h: "direct_get_images e store
       = (case store \<lparr>Bucket = e ''AWS_BUCKET'', Prefix = [], MaxKeys = 1000, ContinuationToken = None\<rparr> of
            Inl err \<Rightarrow>
              ([S3ErrorLog err, ServerError err],
               [\<lparr>Bucket = e ''AWS_BUCKET'', Prefix = [], MaxKeys = 1000, ContinuationToken = None\<rparr>],
               \<lparr>status = 500, body = ErrorObj ''Internal server error''\<rparr>)
          | Inr data \<Rightarrow>
              ([],
               [\<lparr>Bucket = e ''AWS_BUCKET'', Prefix = [], MaxKeys = 1000, ContinuationToken = None\<rparr>],
               \<lparr>status = 200, body = Listing (to_entries e data)\<rparr>))"
    by (simp add: direct_get_images_def direct_list_def listObjects_def listObjects_settle_def
        error_middleware_def listObjects_command_images split: sum.splits)
  have i: "direct_get_folder e store folder
       = (case store \<lparr>Bucket = e ''AWS_BUCKET'', Prefix = folder @ ''/'', MaxKeys = 1000,
                      ContinuationToken = None\<rparr> of
            Inl err \<Rightarrow>
              ([S3ErrorLog err, ServerError err],
               [\<lparr>Bucket = e ''AWS_BUCKET'', Prefix = folder @ ''/'', MaxKeys = 1000,
                 ContinuationToken = None\<rparr>],
               \<lparr>status = 500, body = ErrorObj ''Internal server error''\<rparr>)
          | Inr data \<Rightarrow>
              ([],
               [\<lparr>Bucket = e ''AWS_BUCKET'', Prefix = folder @ ''/'', MaxKeys = 1000,
                 ContinuationToken = None\<rparr>],
               \<lparr>status = 200, body = Listing (to_entries e data)\<rparr>))"
    by (simp add: direct_get_folder_def direct_list_def listObjects_def listObjects_settle_def
        error_middleware_def listObjects_command_folder split: sum.splits)
  have j: "to_entries e (data\<lparr>IsTruncated := trunc, NextContinuationToken := token\<rparr>) = to_entries e data"
    by (simp add: to_entries_def)
  from a b c d f g h i j show ?thesis
    by blast
qed

section \<open>The cache object stays plain\<close>

lemma get_property_plain:
  "proto obj = ObjectPrototype \<Longrightarrow>
     get_property obj k =
       (case map_of (own obj) k of
          Some v \<Rightarrow> Listing v
        | None \<Rightarrow>
            if k = ''__proto__'' then ObjectPrototypeObj
            else if k \<in> set object_prototype_methods then Builtin k
            else Undefined)"
  by (simp add: get_property_def object_prototype_get_def split: option.splits)

lemma truthy_get_property:
  "proto obj = ObjectPrototype \<Longrightarrow>
     truthy (get_property obj k) \<longleftrightarrow> (map_of (own obj) k \<noteq> None \<or> inherited k)"
  by (auto simp: get_property_plain inherited_def split: option.splits)

lemma map_of_put_own: "map_of (put_own k v xs) = (map_of xs)(k \<mapsto> v)"
  by (induction xs) auto

lemma list_all_put_own:
  "list_all P xs \<Longrightarrow> P (k, v) \<Longrightarrow> list_all P (put_own k v xs)"
  by (induction xs) auto

lemma set_object_keys: "set (object_keys obj) = fst ` set (own obj)"
  by (auto simp: object_keys_def Let_def)

lemma length_object_keys: "length (object_keys obj) = length (own obj)"
proof -
  have "length (filter (\<lambda>k. array_index k \<noteq> None) ks) + length (filter (\<lambda>k. array_index k = None) ks)
      = length ks" for ks :: "string list"
    by (induction ks) auto
  from this [of "map fst (own obj)"] show ?thesis
    by (simp add: object_keys_def Let_def del: filter_map)
qed

lemma map_of_None_not_inherited:
  "list_all (\<lambda>p. \<not> inherited (fst p)) xs \<Longrightarrow> inherited k \<Longrightarrow> map_of xs k = None"
  by (induction xs) auto

lemma plain_cache_initial: "plain_cache initial_server"
  by (simp add: plain_cache_def initial_server_def)

lemma plain_cache_refreshImages: "plain_cache s \<Longrightarrow> plain_cache (refreshImages e s)"
  by (simp add: plain_cache_def refreshImages_def send_command_def)

lemma plain_cache_refreshFolder:
  "plain_cache s \<Longrightarrow> \<not> inherited folder \<Longrightarrow> plain_cache (refreshFolder e folder s)"
  by (simp add: plain_cache_def refreshFolder_def send_command_def)

lemma plain_cache_booted: "plain_cache (booted e)"
  by (simp add: booted_def plain_cache_refreshImages plain_cache_initial)

lemma plain_cache_refresh_list:
  "plain_cache s \<Longrightarrow> \<forall>f \<in> set fs. \<not> inherited f \<Longrightarrow>
     plain_cache (foldl (\<lambda>s' folder. refreshFolder e folder s') s fs)"
  by (induction fs arbitrary: s) (simp_all add: plain_cache_refreshFolder)

lemma plain_cache_refresh_folders: "plain_cache s \<Longrightarrow> plain_cache (refresh_folders e s)"
proof -
  assume p: "plain_cache s"
  then have "\<forall>f \<in> set (object_keys (cachedFolders s)). \<not> inherited f"
    by (auto simp: set_object_keys plain_cache_def list_all_iff)
  with p show ?thesis
    unfolding refresh_folders_def by (rule plain_cache_refresh_list)
qed

lemma list_all_remove_nth:
  "list_all P xs \<Longrightarrow> list_all P (take i xs @ drop (Suc i) xs)"
  by (auto simp: list_all_iff dest: in_set_takeD in_set_dropD)

lemma plain_cache_complete: "plain_cache s \<Longrightarrow> plain_cache (complete e i r s)"
proof (cases "i < length (pending s)")
  case False
  assume "plain_cache s"
  with False show ?thesis by (simp add: complete_def)
next
  case True
  assume p: "plain_cache s"
  from p have "list_all (\<lambda>p. task_plain (fst p)) (pending s)"
    by (simp add: plain_cache_def)
  then have rest: "list_all (\<lambda>p. task_plain (fst p)) (take i (pending s) @ drop (Suc i) (pending s))"
    by (rule list_all_remove_nth)
  from p True have t: "task_plain (fst (pending s ! i))"
    by (simp add: plain_cache_def list_all_length)
  show ?thesis
  proof (cases "fst (pending s ! i)")
    case RefreshImagesTask
    with True p rest show ?thesis
      by (cases r)
         (simp_all add: complete_def Let_def refreshImages_resume_success
           refreshImages_resume_failure plain_cache_def)
  next
    case (RefreshFolderTask folder)
    with t have nf: "\<not> inherited folder" by simp
    then have np: "folder \<noteq> ''__proto__''" by (auto simp: inherited_def)
    from RefreshFolderTask True p rest nf np show ?thesis
      by (cases r)
         (simp_all add: complete_def Let_def refreshFolder_resume_success
           refreshFolder_resume_failure plain_cache_def set_property_def list_all_put_own)
  qed
qed

lemma plain_cache_get_folder:
  "plain_cache s \<Longrightarrow> plain_cache (snd (cached_get_folder e folder s))"
proof -
  assume p: "plain_cache s"
  then have pr: "proto (cachedFolders s) = ObjectPrototype"
    by (simp add: plain_cache_def)
  show ?thesis
  proof (cases "truthy (get_property (cachedFolders s) folder)")
    case True
    with p show ?thesis by (simp add: cached_get_folder_def)
  next
    case False
    with pr have "\<not> inherited folder"
      by (simp add: truthy_get_property)
    with p False show ?thesis
      by (simp add: cached_get_folder_def plain_cache_refreshFolder)
  qed
qed

lemma plain_cache_step: "plain_cache s \<Longrightarrow> plain_cache (snd (step e ev s))"
  by (cases ev)
     (simp_all add: cached_get_images_def plain_cache_get_folder plain_cache_refreshImages
       plain_cache_refresh_folders plain_cache_complete)

lemma plain_cache_run: "plain_cache s \<Longrightarrow> plain_cache (run e evs s)"
  by (induction evs arbitrary: s) (simp_all add: plain_cache_step)

lemma plain_cache_reachable: "plain_cache (run e evs (booted e))"
  by (simp add: plain_cache_run plain_cache_booted)

section \<open>A successful refresh writes one slot\<close>

lemma get_property_set_property:
  "proto obj = ObjectPrototype \<Longrightarrow> folder \<noteq> ''__proto__'' \<Longrightarrow>
     get_property (set_property obj folder v) g =
       (if g = folder then Listing v else get_property obj g)"
  by (simp add: get_property_plain set_property_def map_of_put_own)

lemma complete_success_images:
  "i < length (pending s) \<Longrightarrow> fst (pending s ! i) = RefreshImagesTask \<Longrightarrow>
     complete e i (Inr data) s =
       s\<lparr>pending := take i (pending s) @ drop (Suc i) (pending s),
         cachedImages := to_entries e data,
         console := console s @ [CachedImages (length (to_entries e data))]\<rparr>"
  by (simp add: complete_def Let_def refreshImages_resume_success)

lemma complete_success_folder:
  "i < length (pending s) \<Longrightarrow> fst (pending s ! i) = RefreshFolderTask folder \<Longrightarrow>
     complete e i (Inr data) s =
       s\<lparr>pending := take i (pending s) @ drop (Suc i) (pending s),
         cachedFolders := set_property (cachedFolders s) folder (to_entries e data),
         console := console s @ [CachedFolder (length (to_entries e data)) folder]\<rparr>"
  by (simp add: complete_def Let_def refreshFolder_resume_success)

lemma complete_cachedImages:
  "cachedImages (complete e i r s) =
     (case r of
        Inl err \<Rightarrow> cachedImages s
      | Inr data \<Rightarrow>
          if i < length (pending s) \<and> fst (pending s ! i) = RefreshImagesTask
          then to_entries e data else cachedImages s)"
  by (cases r; cases "fst (pending s ! i)")
     (simp_all add: complete_def Let_def refreshImages_resume_success
       refreshImages_resume_failure refreshFolder_resume_success refreshFolder_resume_failure)

lemma complete_cachedFolders:
  "cachedFolders (complete e i r s) =
     (case r of
        Inl err \<Rightarrow> cachedFolders s
      | Inr data \<Rightarrow>
          if i < length (pending s) then
            (case fst (pending s ! i) of
               RefreshImagesTask \<Rightarrow> cachedFolders s
             | RefreshFolderTask folder \<Rightarrow>
                 set_property (cachedFolders s) folder (to_entries e data))
          else cachedFolders s)"
  by (cases r; cases "fst (pending s ! i)")
     (simp_all add: complete_def Let_def refreshImages_resume_success
       refreshImages_resume_failure refreshFolder_resume_success refreshFolder_resume_failure)

lemma refresh_list_frame:
  "cachedImages (foldl (\<lambda>s' folder. refreshFolder e folder s') s fs) = cachedImages s
   \<and> cachedFolders (foldl (\<lambda>s' folder. refreshFolder e folder s') s fs) = cachedFolders s"
  by (induction fs arbitrary: s) (simp_all add: refresh_start_frame)

lemma refresh_folders_frame:
  "cachedImages (refresh_folders e s) = cachedImages s"
  "cachedFolders (refresh_folders e s) = cachedFolders s"
  by (simp_all add: refresh_folders_def refresh_list_frame)

lemma get_folder_frame:
  "cachedImages (snd (cached_get_folder e folder s)) = cachedImages s"
  "cachedFolders (snd (cached_get_folder e folder s)) = cachedFolders s"
  by (simp_all add: cached_get_folder_def refresh_start_frame)

lemma step_cachedImages:
  "cachedImages (snd (step e ev s)) =
     (case ev of
        Complete i (Inr data) \<Rightarrow>
          if i < length (pending s) \<and> fst (pending s ! i) = RefreshImagesTask
          then to_entries e data else cachedImages s
      | _ \<Rightarrow> cachedImages s)"
  by (cases ev)
     (simp_all add: cached_get_images_def get_folder_frame refresh_start_frame
       refresh_folders_frame complete_cachedImages split: sum.splits)

lemma step_cachedFolders:
  "cachedFolders (snd (step e ev s)) =
     (case ev of
        Complete i (Inr data) \<Rightarrow>
          if i < length (pending s) then
            (case fst (pending s ! i) of
               RefreshImagesTask \<Rightarrow> cachedFolders s
             | RefreshFolderTask folder \<Rightarrow>
                 set_property (cachedFolders s) folder (to_entries e data))
          else cachedFolders s
      | _ \<Rightarrow> cachedFolders s)"
  by (cases ev)
     (simp_all add: cached_get_images_def get_folder_frame refresh_start_frame
       refresh_folders_frame complete_cachedFolders split: sum.splits)

lemma pending_folder_not_proto:
  "plain_cache s \<Longrightarrow> i < length (pending s) \<Longrightarrow> fst (pending s ! i) = RefreshFolderTask folder \<Longrightarrow>
     folder \<noteq> ''__proto__''"
proof -
  assume p: "plain_cache s" and i: "i < length (pending s)"
    and f: "fst (pending s ! i) = RefreshFolderTask folder"
  from p have "\<forall>n < length (pending s). task_plain (fst (pending s ! n))"
    by (simp add: plain_cache_def list_all_length)
  with i have "task_plain (fst (pending s ! i))"
    by blast
  with f have "\<not> inherited folder"
    by simp
  then show ?thesis
    by (auto simp: inherited_def)
qed

text \<open>
  C6: every successful refresh replaces exactly one slot, in one step. In every state the
  server reaches, when the awaited call of a full refresh settles with a listing,
  \<open>cachedImages\<close> becomes the entries of that listing and \<open>cachedFolders\<close> is untouched; when
  the awaited call of \<open>refreshFolder(folder)\<close> settles with a listing, \<open>cachedFolders[folder]\<close>
  becomes the entries of that listing while \<open>cachedImages\<close> and the lookup of every other
  name are untouched. Across any single step of the event loop, the value a reader finds
  in a slot is the value before the step or the whole new listing; there is no state in
  between. (The refreshes that occur are the ones the routes and the timers start; none
  of them is for the name \<^verbatim>\<open>__proto__\<close>.)
\<close>

theorem successful_refresh_replaces_one_slot:
  assumes "s = run e evs (booted e)" and "s' = complete e i (Inr data) s"
    and "i < length (pending s)"
  shows "(fst (pending s ! i) = RefreshImagesTask \<longrightarrow>
            cachedImages s' = to_entries e data \<and> cachedFolders s' = cachedFolders s)
       \<and> (\<forall>folder. fst (pending s ! i) = RefreshFolderTask folder \<longrightarrow>
            cachedImages s' = cachedImages s
            \<and> get_property (cachedFolders s') folder = Listing (to_entries e data)
            \<and> (\<forall>g. g \<noteq> folder \<longrightarrow>
                  get_property (cachedFolders s') g = get_property (cachedFolders s) g))
       \<and> (\<forall>ev. cachedImages (snd (step e ev s)) = cachedImages s
              \<or> (\<exists>j d. ev = Complete j (Inr d) \<and> cachedImages (snd (step e ev s)) = to_entries e d))
       \<and> (\<forall>ev g. get_property (cachedFolders (snd (step e ev s))) g = get_property (cachedFolders s) g
              \<or> (\<exists>j d. ev = Complete j (Inr d)
                    \<and> get_property (cachedFolders (snd (step e ev s))) g = Listing (to_entries e d)))"
proof -
  from assms(1) have plain: "plain_cache s"
    by (simp add: plain_cache_reachable)
  then have pr: "proto (cachedFolders s) = ObjectPrototype"
    by (simp add: plain_cache_def)
  have images: "fst (pending s ! i) = RefreshImagesTask \<longrightarrow>
      cachedImages s' = to_entries e data \<and> cachedFolders s' = cachedFolders s"
    using assms(2,3) by (simp add: complete_success_images)
  have folder: "\<forall>folder. fst (pending s ! i) = RefreshFolderTask folder \<longrightarrow>
      cachedImages s' = cachedImages s
      \<and> get_property (cachedFolders s') folder = Listing (to_entries e data)
      \<and> (\<forall>g. g \<noteq> folder \<longrightarrow>
            get_property (cachedFolders s') g = get_property (cachedFolders s) g)"
  proof (intro allI impI)
    fix folder
    assume f: "fst (pending s ! i) = RefreshFolderTask folder"
    from plain assms(3) f have np: "folder \<noteq> ''__proto__''"
      by (rule pending_folder_not_proto)
    from f assms(2,3) have s': "cachedImages s' = cachedImages s"
      "cachedFolders s' = set_property (cachedFolders s) folder (to_entries e data)"
      by (simp_all add: complete_success_folder)
    with pr np show "cachedImages s' = cachedImages s
      \<and> get_property (cachedFolders s') folder = Listing (to_entries e data)
      \<and> (\<forall>g. g \<noteq> folder \<longrightarrow>
            get_property (cachedFolders s') g = get_property (cachedFolders s) g)"
      by (simp add: get_property_set_property)
  qed
  have step_images: "\<forall>ev. cachedImages (snd (step e ev s)) = cachedImages s
      \<or> (\<exists>j d. ev = Complete j (Inr d) \<and> cachedImages (snd (step e ev s)) = to_entries e d)"
    by (auto simp: step_cachedImages split: event.splits sum.splits)
  have step_folders: "get_property (cachedFolders (snd (step e ev s))) g = get_property (cachedFolders s) g
      \<or> (\<exists>j d. ev = Complete j (Inr d)
            \<and> get_property (cachedFolders (snd (step e ev s))) g = Listing (to_entries e d))" for ev g
  proof (cases "\<exists>j d folder. ev = Complete j (Inr d) \<and> j < length (pending s)
        \<and> fst (pending s ! j) = RefreshFolderTask folder")
    case False
    then have "cachedFolders (snd (step e ev s)) = cachedFolders s"
      by (auto simp: step_cachedFolders split: event.splits sum.splits task.splits)
    then show ?thesis by simp
  next
    case True
    then obtain j d folder where ev: "ev = Complete j (Inr d)" and j: "j < length (pending s)"
      and f: "fst (pending s ! j) = RefreshFolderTask folder"
      by blast
    from plain j f have np: "folder \<noteq> ''__proto__''"
      by (rule pending_folder_not_proto)
    from ev j f have "cachedFolders (snd (step e ev s)) = set_property (cachedFolders s) folder (to_entries e d)"
      by (simp add: complete_success_folder)
    with pr np ev show ?thesis
      by (simp add: get_property_set_property)
  qed
  from images folder step_images step_folders show ?thesis
    by blast
qed

lemma example_state_eq:
  "example_state =
     \<lparr>cachedImages = [], cachedFolders = \<lparr>own = [], proto = ObjectPrototype\<rparr>,
      pending =
        [(RefreshImagesTask,
          \<lparr>Bucket = Some ''obsio'', Prefix = [], MaxKeys = 1000, ContinuationToken = None\<rparr>),
         (RefreshFolderTask ''a'',
          \<lparr>Bucket = Some ''obsio'', Prefix = ''a/'', MaxKeys = 1000, ContinuationToken = None\<rparr>)],
      sent =
        [\<lparr>Bucket = Some ''obsio'', Prefix = [], MaxKeys = 1000, ContinuationToken = None\<rparr>,
         \<lparr>Bucket = Some ''obsio'', Prefix = ''a/'', MaxKeys = 1000, ContinuationToken = None\<rparr>],
      console = []\<rparr>"
  by (simp add: example_state_def booted_def initial_server_def refreshImages_def
      refreshFolder_def send_command_def cached_get_folder_def get_property_def
      object_prototype_get_def object_prototype_methods_def listObjects_command_images
      listObjects_command_folder example_env_def)

lemma to_entries_example_page:
  "to_entries example_env example_page =
     [\<lparr>key = ''a/1.jpg'', url = ''https://obsio.s3.ap-south-1.amazonaws.com/a/1.jpg''\<rparr>,
      \<lparr>key = ''a/2.jpg'', url = ''https://obsio.s3.ap-south-1.amazonaws.com/a/2.jpg''\<rparr>]"
  by (simp add: to_entries_def example_page_def to_entry_def object_url_def template_def
      example_env_def)

lemma s3_sim_example_folder:
  "s3_sim example_bucket
     \<lparr>Bucket = Some ''obsio'', Prefix = ''a/'', MaxKeys = 1000, ContinuationToken = None\<rparr>
   = Inr example_page"
  by (simp add: s3_sim_def example_bucket_def example_page_def starts_with_def Let_def)

text \<open>
  An instance of C6: after start-up and one request for the folder \<open>a\<close>, the second awaited
  call is the folder's; when it settles with the page of the example, the folder's slot
  holds that page's two entries, and \<open>cachedImages\<close> and the folder \<open>b\<close> are as before.
\<close>

theorem successful_refresh_replaces_one_slot_witness:
  "example_state = run example_env [GetFolder ''a''] (booted example_env)
   \<and> 1 < length (pending example_state)
   \<and> fst (pending example_state ! 1) = RefreshFolderTask ''a''
   \<and> cachedImages (complete example_env 1 (Inr example_page) example_state) = []
   \<and> get_property (cachedFolders (complete example_env 1 (Inr example_page) example_state)) ''a''
       = Listing
           [\<lparr>key = ''a/1.jpg'', url = ''https://obsio.s3.ap-south-1.amazonaws.com/a/1.jpg''\<rparr>,
            \<lparr>key = ''a/2.jpg'', url = ''https://obsio.s3.ap-south-1.amazonaws.com/a/2.jpg''\<rparr>]
   \<and> get_property (cachedFolders (complete example_env 1 (Inr example_page) example_state)) ''b''
       = Undefined"
proof -
  have len: "1 < length (pending example_state)"
    by (simp add: example_state_eq)
  have task: "fst (pending example_state ! 1) = RefreshFolderTask ''a''"
    by (simp add: example_state_eq)
  have before: "cachedImages example_state = []"
    "get_property (cachedFolders example_state) ''b'' = Undefined"
    by (simp_all add: example_state_eq get_property_def object_prototype_get_def
        object_prototype_methods_def)
  have neq: "''b'' \<noteq> ''a''"
    by simp
  from successful_refresh_replaces_one_slot [OF example_state_def refl len,
      where data = example_page]
    task before neq len
  show ?thesis
    by (simp add: to_entries_example_page example_state_def)
qed

section \<open>Every entry's url is derived from its key\<close>

lemma derived_to_entry: "derived e (to_entry e file)"
  by (simp add: derived_def to_entry_def)

lemma derived_to_entries: "list_all (derived e) (to_entries e data)"
  by (cases "Contents data") (auto simp: to_entries_def list_all_iff derived_to_entry)

lemma derived_cache_initial: "derived_cache e initial_server"
  by (simp add: derived_cache_def initial_server_def)

lemma derived_cache_booted: "derived_cache e (booted e)"
  by (simp add: derived_cache_def booted_def refresh_start_frame initial_server_def)

lemma derived_set_property:
  "list_all (\<lambda>p. list_all (derived e) (snd p)) (own obj) \<Longrightarrow>
     list_all (\<lambda>p. list_all (derived e) (snd p)) (own (set_property obj folder (to_entries e data)))"
  by (simp add: set_property_def list_all_put_own derived_to_entries)

lemma derived_cache_step: "derived_cache e s \<Longrightarrow> derived_cache e (snd (step e ev s))"
  unfolding derived_cache_def step_cachedImages step_cachedFolders
  by (auto simp: derived_to_entries derived_set_property split: event.splits sum.splits task.splits)

lemma derived_cache_run: "derived_cache e s \<Longrightarrow> derived_cache e (run e evs s)"
  by (induction evs arbitrary: s) (simp_all add: derived_cache_step)

lemma derived_lookup:
  assumes "plain_cache s" and "derived_cache e s"
  shows "derived_body e (get_property (cachedFolders s) folder)"
proof (cases "map_of (own (cachedFolders s)) folder")
  case None
  with assms(1) show ?thesis
    by (simp add: plain_cache_def get_property_plain derived_body_def)
next
  case (Some v)
  then have "(folder, v) \<in> set (own (cachedFolders s))"
    by (rule map_of_SomeD)
  with assms(2) have "list_all (derived e) v"
    by (auto simp: derived_cache_def list_all_iff)
  with Some assms(1) show ?thesis
    by (simp add: plain_cache_def get_property_plain derived_body_def)
qed

lemma derived_step_response:
  assumes "plain_cache s" and "derived_cache e s" and "fst (step e ev s) = Some r"
  shows "derived_body e (body r)"
proof (cases ev)
  case GetRoot
  with assms(3) show ?thesis
    by (auto simp: get_root_def derived_body_def)
next
  case GetImages
  with assms(2,3) show ?thesis
    by (auto simp: cached_get_images_def derived_body_def derived_cache_def)
next
  case (GetFolder folder)
  with assms(3) derived_lookup [OF assms(1,2), of folder] show ?thesis
    by (auto simp: cached_get_folder_def derived_body_def split: if_splits)
next
  case TickImages
  with assms(3) show ?thesis by simp
next
  case TickFolders
  with assms(3) show ?thesis by simp
next
  case (Complete i r)
  with assms(3) show ?thesis by simp
qed

lemma derived_responses:
  "plain_cache s \<Longrightarrow> derived_cache e s \<Longrightarrow> r \<in> set (responses e evs s) \<Longrightarrow>
     derived_body e (body r)"
proof (induction evs arbitrary: s)
  case Nil
  then show ?case by simp
next
  case (Cons ev evs)
  from Cons.prems(3) consider
    (head) "fst (step e ev s) = Some r" | (tail) "r \<in> set (responses e evs (snd (step e ev s)))"
    by (auto split: option.splits)
  then show ?case
  proof cases
    case head
    with Cons.prems(1,2) show ?thesis
      by (rule derived_step_response)
  next
    case tail
    from Cons.prems(1) have "plain_cache (snd (step e ev s))"
      by (rule plain_cache_step)
    moreover from Cons.prems(2) have "derived_cache e (snd (step e ev s))"
      by (rule derived_cache_step)
    ultimately show ?thesis
      using tail by (rule Cons.IH)
  qed
qed

lemma derived_direct_list: "derived_body e (body (snd (snd (direct_list e store a))))"
  by (simp add: direct_list_def listObjects_def listObjects_settle_def error_middleware_def
      derived_body_def derived_to_entries split: sum.splits)

lemma derived_bodyD:
  "derived_body e v \<Longrightarrow> v = Listing xs \<Longrightarrow> x \<in> set xs \<Longrightarrow> url x = object_url e (key x)"
  by (simp add: derived_body_def list_all_iff derived_def)

text \<open>
  C7: in every entry the server produces, \<open>url\<close> is
  \<^verbatim>\<open>https://{bucket}.s3.{region}.amazonaws.com/{key}\<close> for the entry's own \<open>key\<close> and
  the bucket and region of the environment. This holds of every entry a listing is mapped
  to, hence, in every state the caching server reaches, of every entry of \<open>cachedImages\<close>
  and of every cached folder, of every array a route of the caching server has returned,
  and of every array a route of the direct server returns.
\<close>

theorem entries_url_derived_from_key:
  assumes "s = run e evs (booted e)"
  shows "(\<forall>x \<in> set (to_entries e data). url x = object_url e (key x))
       \<and> (\<forall>x \<in> set (cachedImages s). url x = object_url e (key x))
       \<and> (\<forall>folder xs. get_property (cachedFolders s) folder = Listing xs \<longrightarrow>
             (\<forall>x \<in> set xs. url x = object_url e (key x)))
       \<and> (\<forall>r \<in> set (responses e evs (booted e)). \<forall>xs. body r = Listing xs \<longrightarrow>
             (\<forall>x \<in> set xs. url x = object_url e (key x)))
       \<and> (\<forall>xs. body (snd (snd (direct_get_images e store))) = Listing xs \<longrightarrow>
             (\<forall>x \<in> set xs. url x = object_url e (key x)))
       \<and> (\<forall>xs. body (snd (snd (direct_get_folder e store folderPath))) = Listing xs \<longrightarrow>
             (\<forall>x \<in> set xs. url x = object_url e (key x)))
       \<and> (\<forall>b r k. e ''AWS_BUCKET'' = Some b \<and> e ''AWS_REGION'' = Some r \<longrightarrow>
             object_url e k = ''https://'' @ b @ ''.s3.'' @ r @ ''.amazonaws.com/'' @ k)"
proof -
  from assms have plain: "plain_cache s" and der: "derived_cache e s"
    by (simp_all add: plain_cache_reachable derived_cache_run derived_cache_booted)
  have c1: "\<forall>x \<in> set (to_entries e data). url x = object_url e (key x)"
    using derived_to_entries [of e data] by (simp add: list_all_iff derived_def)
  have c2: "\<forall>x \<in> set (cachedImages s). url x = object_url e (key x)"
    using der by (simp add: derived_cache_def list_all_iff derived_def)
  have c3: "\<forall>folder xs. get_property (cachedFolders s) folder = Listing xs \<longrightarrow>
      (\<forall>x \<in> set xs. url x = object_url e (key x))"
    using derived_lookup [OF plain der] derived_bodyD by blast
  have c4: "\<forall>r \<in> set (responses e evs (booted e)). \<forall>xs. body r = Listing xs \<longrightarrow>
      (\<forall>x \<in> set xs. url x = object_url e (key x))"
    using derived_responses [OF plain_cache_booted derived_cache_booted] derived_bodyD by blast
  have c5: "\<forall>xs. body (snd (snd (direct_get_images e store))) = Listing xs \<longrightarrow>
      (\<forall>x \<in> set xs. url x = object_url e (key x))"
    using derived_direct_list [of e store "images_args e"] derived_bodyD
    unfolding direct_get_images_def by blast
  have c6: "\<forall>xs. body (snd (snd (direct_get_folder e store folderPath))) = Listing xs \<longrightarrow>
      (\<forall>x \<in> set xs. url x = object_url e (key x))"
    using derived_direct_list [of e store "folder_args e folderPath"] derived_bodyD
    unfolding direct_get_folder_def by blast
  have c7: "\<forall>b r k. e ''AWS_BUCKET'' = Some b \<and> e ''AWS_REGION'' = Some r \<longrightarrow>
      object_url e k = ''https://'' @ b @ ''.s3.'' @ r @ ''.amazonaws.com/'' @ k"
    by (simp add: object_url_def template_def)
  show ?thesis
    by (intro conjI c1 c2 c3 c4 c5 c6 c7)
qed

text \<open>
  An instance of C7: once the first full refresh has settled with the example page, both
  cached entries carry the url built from their key.
\<close>

theorem entries_url_derived_from_key_witness:
  "cachedImages (run example_env [Complete 0 (Inr example_page)] (booted example_env)) =
     [\<lparr>key = ''a/1.jpg'', url = ''https://obsio.s3.ap-south-1.amazonaws.com/a/1.jpg''\<rparr>,
      \<lparr>key = ''a/2.jpg'', url = ''https://obsio.s3.ap-south-1.amazonaws.com/a/2.jpg''\<rparr>]
   \<and> object_url example_env ''a/1.jpg'' = ''https://obsio.s3.ap-south-1.amazonaws.com/a/1.jpg''
   \<and> object_url example_env ''a/2.jpg'' = ''https://obsio.s3.ap-south-1.amazonaws.com/a/2.jpg''
   \<and> example_env ''AWS_BUCKET'' = Some ''obsio'' \<and> example_env ''AWS_REGION'' = Some ''ap-south-1''"
proof -
  have imgs: "cachedImages (run example_env [Complete 0 (Inr example_page)] (booted example_env))
      = to_entries example_env example_page"
    by (simp add: booted_def refreshImages_def send_command_def initial_server_def
        complete_def Let_def refreshImages_resume_success)
  have env: "example_env ''AWS_BUCKET'' = Some ''obsio''" "example_env ''AWS_REGION'' = Some ''ap-south-1''"
    by (simp_all add: example_env_def)
  have "\<forall>b r k. example_env ''AWS_BUCKET'' = Some b \<and> example_env ''AWS_REGION'' = Some r \<longrightarrow>
      object_url example_env k = ''https://'' @ b @ ''.s3.'' @ r @ ''.amazonaws.com/'' @ k"
    using entries_url_derived_from_key [OF refl, where e = example_env
      and evs = "[Complete 0 (Inr example_page)]" and data = example_page and store = s3_down
      and folderPath = "''a''"]
    by (elim conjE)
  with env have urls: "object_url example_env k = ''https://'' @ ''obsio'' @ ''.s3.'' @ ''ap-south-1'' @ ''.amazonaws.com/'' @ k" for k
    by blast
  from imgs env urls [of "''a/1.jpg''"] urls [of "''a/2.jpg''"] show ?thesis
    by (simp add: to_entries_example_page)
qed

section \<open>The full listing route\<close>

lemma s3_sim_example_all:
  "s3_sim example_bucket
     \<lparr>Bucket = Some ''obsio'', Prefix = [], MaxKeys = 1000, ContinuationToken = None\<rparr>
   = Inr \<lparr>Contents = Some example_bucket, IsTruncated = False, NextContinuationToken = None\<rparr>"
  by (simp add: s3_sim_def example_bucket_def starts_with_def Let_def)

lemma images_command_example:
  "listObjects_command (images_args example_env) =
     \<lparr>Bucket = Some ''obsio'', Prefix = [], MaxKeys = 1000, ContinuationToken = None\<rparr>"
  by (simp add: listObjects_command_images example_env_def)

text \<open>
  C2 as stated fails on the direct server: its route \<^verbatim>\<open>GET /api/images\<close> sends a command to
  the store on every request and answers with what the store returns at that moment,
  three entries for the example bucket and none for an empty one.
\<close>

theorem direct_images_route_calls_store_counterexample:
  "fst (snd (direct_get_images example_env (s3_sim example_bucket)))
     = [\<lparr>Bucket = Some ''obsio'', Prefix = [], MaxKeys = 1000, ContinuationToken = None\<rparr>]
   \<and> snd (snd (direct_get_images example_env (s3_sim example_bucket)))
     = \<lparr>status = 200,
        body = Listing
          [\<lparr>key = ''a/1.jpg'', url = ''https://obsio.s3.ap-south-1.amazonaws.com/a/1.jpg''\<rparr>,
           \<lparr>key = ''a/2.jpg'', url = ''https://obsio.s3.ap-south-1.amazonaws.com/a/2.jpg''\<rparr>,
           \<lparr>key = ''b/1.jpg'', url = ''https://obsio.s3.ap-south-1.amazonaws.com/b/1.jpg''\<rparr>]\<rparr>
   \<and> snd (snd (direct_get_images example_env (s3_sim []))) = \<lparr>status = 200, body = Listing []\<rparr>"
proof -
  have empty: "s3_sim [] \<lparr>Bucket = Some ''obsio'', Prefix = [], MaxKeys = 1000, ContinuationToken = None\<rparr>
      = Inr \<lparr>Contents = None, IsTruncated = False, NextContinuationToken = None\<rparr>"
    by (simp add: s3_sim_def Let_def)
  have a: "fst (snd (direct_get_images example_env (s3_sim example_bucket)))
     = [\<lparr>Bucket = Some ''obsio'', Prefix = [], MaxKeys = 1000, ContinuationToken = None\<rparr>]"
    by (simp add: direct_get_images_def direct_list_def listObjects_def images_command_example
        s3_sim_example_all listObjects_settle_def)
  have b: "snd (snd (direct_get_images example_env (s3_sim example_bucket)))
     = \<lparr>status = 200,
        body = Listing
          [\<lparr>key = ''a/1.jpg'', url = ''https://obsio.s3.ap-south-1.amazonaws.com/a/1.jpg''\<rparr>,
           \<lparr>key = ''a/2.jpg'', url = ''https://obsio.s3.ap-south-1.amazonaws.com/a/2.jpg''\<rparr>,
           \<lparr>key = ''b/1.jpg'', url = ''https://obsio.s3.ap-south-1.amazonaws.com/b/1.jpg''\<rparr>]\<rparr>"
    by (simp add: direct_get_images_def direct_list_def listObjects_def images_command_example
        s3_sim_example_all listObjects_settle_def to_entries_def)
       (simp add: example_bucket_def to_entry_def object_url_def template_def example_env_def)
  have c: "snd (snd (direct_get_images example_env (s3_sim []))) = \<lparr>status = 200, body = Listing []\<rparr>"
    by (simp add: direct_get_images_def direct_list_def listObjects_def images_command_example
        empty listObjects_settle_def to_entries_def)
  show ?thesis
    by (intro conjI a b c)
qed

lemma run_cachedImages:
  "cachedImages (run e evs s) = latest_full_listing e (cachedImages s) evs s"
proof (induction evs arbitrary: s)
  case Nil
  show ?case by simp
next
  case (Cons ev evs)
  have "cachedImages (run e (ev # evs) s)
      = latest_full_listing e (cachedImages (snd (step e ev s))) evs (snd (step e ev s))"
    by (simp add: Cons.IH)
  also have "\<dots> = latest_full_listing e (cachedImages s) (ev # evs) s"
    by (simp only: latest_full_listing.simps step_cachedImages)
  finally show ?case .
qed

text \<open>
  C2 amended, for the caching server only: the route \<^verbatim>\<open>GET /api/images\<close> answers 200 with
  \<open>cachedImages\<close> in one step that sends no command and changes nothing. After any trace
  of events \<open>cachedImages\<close> is the entries of the latest full listing that settled
  successfully (the empty array before the first), and right after a full refresh settles
  with a listing the route returns exactly the entries of that listing. The direct
  server's route instead sends one command per request.
\<close>

theorem cached_images_route_serves_latest:
  "step e GetImages s = (Some \<lparr>status = 200, body = Listing (cachedImages s)\<rparr>, s)
   \<and> cachedImages (run e evs s) = latest_full_listing e (cachedImages s) evs s
   \<and> fst (cached_get_images (run e evs (booted e)))
       = \<lparr>status = 200, body = Listing (latest_full_listing e [] evs (booted e))\<rparr>
   \<and> (i < length (pending s) \<and> fst (pending s ! i) = RefreshImagesTask \<longrightarrow>
        fst (cached_get_images (complete e i (Inr data) s))
          = \<lparr>status = 200, body = Listing (to_entries e data)\<rparr>)
   \<and> fst (snd (direct_get_images e store)) = [listObjects_command (images_args e)]"
proof -
  have a: "step e GetImages s = (Some \<lparr>status = 200, body = Listing (cachedImages s)\<rparr>, s)"
    by (simp add: cached_get_images_def)
  have b: "cachedImages (run e evs s) = latest_full_listing e (cachedImages s) evs s"
    by (rule run_cachedImages)
  have "cachedImages (booted e) = []"
    by (simp add: booted_def refresh_start_frame initial_server_def)
  then have c: "fst (cached_get_images (run e evs (booted e)))
       = \<lparr>status = 200, body = Listing (latest_full_listing e [] evs (booted e))\<rparr>"
    by (simp add: cached_get_images_def run_cachedImages)
  have d: "i < length (pending s) \<and> fst (pending s ! i) = RefreshImagesTask \<longrightarrow>
        fst (cached_get_images (complete e i (Inr data) s))
          = \<lparr>status = 200, body = Listing (to_entries e data)\<rparr>"
    by (simp add: cached_get_images_def complete_cachedImages)
  have f: "fst (snd (direct_get_images e store)) = [listObjects_command (images_args e)]"
    by (simp add: direct_get_images_def direct_list_def split: prod.splits sum.splits)
  show ?thesis
    by (intro conjI a b c d f)
qed

text \<open>
  An instance: in the example state the first awaited call is the full refresh; once it
  settles with the example page, the route returns that page's two entries.
\<close>

theorem cached_images_route_serves_latest_witness:
  "0 < length (pending example_state) \<and> fst (pending example_state ! 0) = RefreshImagesTask
   \<and> fst (cached_get_images (complete example_env 0 (Inr example_page) example_state))
       = \<lparr>status = 200,
          body = Listing
            [\<lparr>key = ''a/1.jpg'', url = ''https://obsio.s3.ap-south-1.amazonaws.com/a/1.jpg''\<rparr>,
             \<lparr>key = ''a/2.jpg'', url = ''https://obsio.s3.ap-south-1.amazonaws.com/a/2.jpg''\<rparr>]\<rparr>"
proof -
  have h: "0 < length (pending example_state) \<and> fst (pending example_state ! 0) = RefreshImagesTask"
    by (simp add: example_state_eq)
  have "i < length (pending s) \<and> fst (pending s ! i) = RefreshImagesTask \<longrightarrow>
        fst (cached_get_images (complete e i (Inr data) s))
          = \<lparr>status = 200, body = Listing (to_entries e data)\<rparr>"
    for i s e data
    using cached_images_route_serves_latest [where e = e and s = s and evs = "[]" and i = i
        and data = data and store = s3_down]
    by (elim conjE)
  from this [where i = 0 and s = example_state and data = example_page and e = example_env] h
  have "fst (cached_get_images (complete example_env 0 (Inr example_page) example_state))
      = \<lparr>status = 200, body = Listing (to_entries example_env example_page)\<rparr>"
    by blast
  with h show ?thesis
    by (simp add: to_entries_example_page)
qed

section \<open>Store failures and the listing routes\<close>

text \<open>
  C5 as stated fails on the direct server: with the store down, both listing routes
  answer 500 with \<^verbatim>\<open>{ error: "Internal server error" }\<close>, through the error middleware.
\<close>

theorem direct_routes_surface_store_failure_counterexample:
  "snd (snd (direct_get_images example_env s3_down))
     = \<lparr>status = 500, body = ErrorObj ''Internal server error''\<rparr>
   \<and> snd (snd (direct_get_folder example_env s3_down ''a''))
     = \<lparr>status = 500, body = ErrorObj ''Internal server error''\<rparr>"
  by (simp add: direct_get_images_def direct_get_folder_def direct_list_def listObjects_def
      listObjects_settle_def s3_down_def error_middleware_def)

lemma get_folder_plain:
  assumes "plain_cache s" and "\<not> inherited folder"
  shows "fst (cached_get_folder e folder s) =
     \<lparr>status = 200,
      body = Listing (case map_of (own (cachedFolders s)) folder of None \<Rightarrow> [] | Some v \<Rightarrow> v)\<rparr>"
proof -
  from assms(1) have pr: "proto (cachedFolders s) = ObjectPrototype"
    by (simp add: plain_cache_def)
  from assms(2) have "folder \<noteq> ''__proto__''" "folder \<notin> set object_prototype_methods"
    by (auto simp: inherited_def)
  with pr show ?thesis
    by (cases "map_of (own (cachedFolders s)) folder")
       (simp_all add: cached_get_folder_def get_property_plain)
qed

lemma step_status:
  "fst (step e ev s) = Some r \<Longrightarrow> status r = 200"
  by (cases ev) (auto simp: get_root_def cached_get_images_def cached_get_folder_def)

lemma responses_status: "r \<in> set (responses e evs s) \<Longrightarrow> status r = 200"
proof (induction evs arbitrary: s)
  case Nil
  then show ?case by simp
next
  case (Cons ev evs)
  from Cons.prems consider
    (head) "fst (step e ev s) = Some r" | (tail) "r \<in> set (responses e evs (snd (step e ev s)))"
    by (auto split: option.splits)
  then show ?case
  proof cases
    case head
    then show ?thesis by (rule step_status)
  next
    case tail
    then show ?thesis by (rule Cons.IH)
  qed
qed

text \<open>
  C5 amended. In the caching server no outcome of a store call reaches a response: after
  any trace of requests, ticks and settled calls (failed ones included) every response
  given so far has status 200, \<^verbatim>\<open>GET /api/images\<close> answers 200 with the cached array,
  and \<^verbatim>\<open>GET /api/images/{folder}\<close> answers 200, with the folder's cached array or the
  empty array when \<open>folder\<close> is not a name inherited from \<^verbatim>\<open>Object.prototype\<close>. In the
  direct server a successful call gives 200 with the derived entries and a failed call
  gives 500 with \<^verbatim>\<open>{ error: "Internal server error" }\<close>.
\<close>

theorem caching_routes_never_surface_store_failure:
  assumes "s = run e evs (booted e)"
  shows "fst (cached_get_images s) = \<lparr>status = 200, body = Listing (cachedImages s)\<rparr>
       \<and> status (fst (cached_get_folder e folder s)) = 200
       \<and> (\<not> inherited folder \<longrightarrow>
            fst (cached_get_folder e folder s) =
              \<lparr>status = 200,
               body = Listing (case map_of (own (cachedFolders s)) folder of
                                 None \<Rightarrow> [] | Some v \<Rightarrow> v)\<rparr>)
       \<and> (\<forall>r \<in> set (responses e evs (booted e)). status r = 200)
       \<and> snd (snd (direct_list e store a)) =
           (case store (listObjects_command a) of
              Inl err \<Rightarrow> \<lparr>status = 500, body = ErrorObj ''Internal server error''\<rparr>
            | Inr data \<Rightarrow> \<lparr>status = 200, body = Listing (to_entries e data)\<rparr>)"
proof -
  from assms have plain: "plain_cache s"
    by (simp add: plain_cache_reachable)
  have a: "fst (cached_get_images s) = \<lparr>status = 200, body = Listing (cachedImages s)\<rparr>"
    by (simp add: cached_get_images_def)
  have b: "status (fst (cached_get_folder e folder s)) = 200"
    by (simp add: cached_get_folder_def)
  have c: "\<not> inherited folder \<longrightarrow>
            fst (cached_get_folder e folder s) =
              \<lparr>status = 200,
               body = Listing (case map_of (own (cachedFolders s)) folder of
                                 None \<Rightarrow> [] | Some v \<Rightarrow> v)\<rparr>"
    using get_folder_plain [OF plain] by blast
  have d: "\<forall>r \<in> set (responses e evs (booted e)). status r = 200"
    using responses_status by blast
  have f: "snd (snd (direct_list e store a)) =
           (case store (listObjects_command a) of
              Inl err \<Rightarrow> \<lparr>status = 500, body = ErrorObj ''Internal server error''\<rparr>
            | Inr data \<Rightarrow> \<lparr>status = 200, body = Listing (to_entries e data)\<rparr>)"
    by (simp add: direct_list_def listObjects_def listObjects_settle_def error_middleware_def
        split: sum.splits)
  show ?thesis
    by (intro conjI a b c d f)
qed

text \<open>
  An instance: the first full refresh fails, the folder \<open>a\<close> is requested and its refresh
  fails too; both requests that follow are answered 200 with an empty array.
\<close>

theorem caching_routes_never_surface_store_failure_witness:
  "\<not> inherited ''a''
   \<and> fst (cached_get_images
        (run example_env
          [Complete 0 (Inl (S3Error ''unavailable'')), GetFolder ''a'',
           Complete 0 (Inl (S3Error ''unavailable''))] (booted example_env)))
       = \<lparr>status = 200, body = Listing []\<rparr>
   \<and> fst (cached_get_folder example_env ''a''
        (run example_env
          [Complete 0 (Inl (S3Error ''unavailable'')), GetFolder ''a'',
           Complete 0 (Inl (S3Error ''unavailable''))] (booted example_env)))
       = \<lparr>status = 200, body = Listing []\<rparr>"
proof -
  let ?evs = "[Complete 0 (Inl (S3Error ''unavailable'')), GetFolder ''a'',
           Complete 0 (Inl (S3Error ''unavailable''))]"
  let ?s = "run example_env ?evs (booted example_env)"
  have st: "cachedImages ?s = []" "own (cachedFolders ?s) = []"
    by (simp_all add: booted_def refresh_start_frame initial_server_def
        complete_failure_caches get_folder_frame)
  have ni: "\<not> inherited ''a''"
    by (simp add: inherited_def object_prototype_methods_def)
  have "fst (cached_get_images ?s) = \<lparr>status = 200, body = Listing (cachedImages ?s)\<rparr>
      \<and> (\<not> inherited ''a'' \<longrightarrow>
            fst (cached_get_folder example_env ''a'' ?s) =
              \<lparr>status = 200,
               body = Listing (case map_of (own (cachedFolders ?s)) ''a'' of
                                 None \<Rightarrow> [] | Some v \<Rightarrow> v)\<rparr>)"
    using caching_routes_never_surface_store_failure [OF refl, where e = example_env
        and evs = ?evs and folder = "''a''" and store = s3_down
        and a = "images_args example_env"]
    by (elim conjE) (rule conjI)
  with ni st show ?thesis
    by simp
qed

section \<open>The refresh timers\<close>

lemma refresh_list_sent:
  "sent (foldl (\<lambda>s' folder. refreshFolder e folder s') s fs)
     = sent s @ map (\<lambda>folder. listObjects_command (folder_args e folder)) fs
   \<and> pending (foldl (\<lambda>s' folder. refreshFolder e folder s') s fs)
     = pending s @ map (\<lambda>folder. (RefreshFolderTask folder, listObjects_command (folder_args e folder))) fs"
  by (induction fs arbitrary: s) (simp_all add: refresh_start_pending)

text \<open>
  C8 as stated fails: the interval does not come from the environment. With
  \<^verbatim>\<open>REFRESH_INTERVAL\<close>, \<^verbatim>\<open>REFRESH_INTERVAL_MS\<close> and \<^verbatim>\<open>CACHE_TTL\<close> set to other values the
  module registers the same two timers of 45000 ms as without them.
\<close>

theorem refresh_interval_ignores_environment_counterexample:
  "intervals (caching_startup
      (example_env(''REFRESH_INTERVAL'' \<mapsto> ''10'', ''REFRESH_INTERVAL_MS'' \<mapsto> ''10000'',
         ''CACHE_TTL'' \<mapsto> ''10'')))
     = [(TimerRefreshImages, 45000), (TimerRefreshFolders, 45000)]
   \<and> intervals (caching_startup example_env)
     = [(TimerRefreshImages, 45000), (TimerRefreshFolders, 45000)]"
  by (simp add: caching_startup_def requiredEnv_def env_falsy_def example_env_def)

text \<open>
  C8 amended: the interval is the constant 45000 ms, whatever the environment holds. When
  the required variables are present the module registers two timers of that interval
  (and none otherwise, since it exits). A tick of the first starts the full refresh; a tick
  of the second starts \<open>refreshFolder\<close> once for every own key of \<open>cachedFolders\<close> at that
  moment, in the order of \<^verbatim>\<open>Object.keys\<close>, each sending one command with the prefix
  \<open>folder/\<close>. Neither tick changes a cached value.
\<close>

theorem refresh_timers_fixed_interval:
  "intervals (caching_startup e)
     = (if first_missing e requiredEnv = None
        then [(TimerRefreshImages, 45000), (TimerRefreshFolders, 45000)] else [])
   \<and> step e (tick TimerRefreshImages) s = (None, refreshImages e s)
   \<and> sent (refreshImages e s) = sent s @ [listObjects_command (images_args e)]
   \<and> sent (snd (step e (tick TimerRefreshFolders) s))
       = sent s @ map (\<lambda>folder. listObjects_command (folder_args e folder))
                    (object_keys (cachedFolders s))
   \<and> pending (snd (step e (tick TimerRefreshFolders) s))
       = pending s @ map (\<lambda>folder. (RefreshFolderTask folder, listObjects_command (folder_args e folder)))
                       (object_keys (cachedFolders s))
   \<and> set (object_keys (cachedFolders s)) = fst ` set (own (cachedFolders s))
   \<and> length (object_keys (cachedFolders s)) = length (own (cachedFolders s))
   \<and> cachedImages (snd (step e (tick cb) s)) = cachedImages s
   \<and> cachedFolders (snd (step e (tick cb) s)) = cachedFolders s"
proof -
  have a: "intervals (caching_startup e)
     = (if first_missing e requiredEnv = None
        then [(TimerRefreshImages, 45000), (TimerRefreshFolders, 45000)] else [])"
    by (cases "first_missing e requiredEnv") (simp_all add: caching_startup_def)
  have b: "step e (tick TimerRefreshImages) s = (None, refreshImages e s)"
    by simp
  have c: "sent (refreshImages e s) = sent s @ [listObjects_command (images_args e)]"
    by (simp add: refresh_start_pending)
  have d: "sent (snd (step e (tick TimerRefreshFolders) s))
       = sent s @ map (\<lambda>folder. listObjects_command (folder_args e folder))
                    (object_keys (cachedFolders s))"
    by (simp add: refresh_folders_def refresh_list_sent)
  have f: "pending (snd (step e (tick TimerRefreshFolders) s))
       = pending s @ map (\<lambda>folder. (RefreshFolderTask folder, listObjects_command (folder_args e folder)))
                       (object_keys (cachedFolders s))"
    by (simp add: refresh_folders_def refresh_list_sent)
  have g: "set (object_keys (cachedFolders s)) = fst ` set (own (cachedFolders s))"
    by (rule set_object_keys)
  have h: "length (object_keys (cachedFolders s)) = length (own (cachedFolders s))"
    by (rule length_object_keys)
  have i: "cachedImages (snd (step e (tick cb) s)) = cachedImages s"
    by (cases cb) (simp_all add: refresh_start_frame refresh_folders_frame)
  have j: "cachedFolders (snd (step e (tick cb) s)) = cachedFolders s"
    by (cases cb) (simp_all add: refresh_start_frame refresh_folders_frame)
  show ?thesis
    by (intro conjI a b c d f g h i j)
qed

section \<open>Folder requests for names inherited from the prototype\<close>

lemma get_folder_inherited:
  assumes "plain_cache s" and "inherited folder"
  shows "cached_get_folder e folder s =
     (\<lparr>status = 200,
       body = (if folder = ''__proto__'' then ObjectPrototypeObj else Builtin folder)\<rparr>, s)"
proof -
  from assms(1) have pr: "proto (cachedFolders s) = ObjectPrototype"
    and own: "list_all (\<lambda>p. \<not> inherited (fst p)) (own (cachedFolders s))"
    by (simp_all add: plain_cache_def)
  from own assms(2) have none: "map_of (own (cachedFolders s)) folder = None"
    by (rule map_of_None_not_inherited)
  from assms(2) have "folder = ''__proto__'' \<or> folder \<in> set object_prototype_methods"
    by (simp add: inherited_def)
  with pr none show ?thesis
    by (auto simp: cached_get_folder_def get_property_plain)
qed

lemma inherited_constructor: "inherited ''constructor''"
  by (simp add: inherited_def object_prototype_methods_def)

lemma inherited_proto: "inherited ''__proto__''"
  by (simp add: inherited_def)

text \<open>
  C4, the failing input. The folder \<^verbatim>\<open>constructor\<close> never has an entry in \<open>cachedFolders\<close>,
  yet in every state the server reaches (the first request included) the lookup
  \<^verbatim>\<open>cachedFolders["constructor"]\<close> finds the function inherited from
  \<^verbatim>\<open>Object.prototype\<close>: the route passes that function to \<^verbatim>\<open>res.json\<close> instead of the
  empty array and starts no refresh, so the state, and with it the list of commands sent,
  is unchanged.
\<close>

theorem inherited_folder_is_never_populated:
  "cached_get_folder e ''constructor'' (run e evs (booted e))
     = (\<lparr>status = 200, body = Builtin ''constructor''\<rparr>, run e evs (booted e))
   \<and> map_of (own (cachedFolders (run e evs (booted e)))) ''constructor'' = None"
proof -
  have plain: "plain_cache (run e evs (booted e))"
    by (rule plain_cache_reachable)
  then have "list_all (\<lambda>p. \<not> inherited (fst p)) (own (cachedFolders (run e evs (booted e))))"
    by (simp add: plain_cache_def)
  then have "map_of (own (cachedFolders (run e evs (booted e)))) ''constructor'' = None"
    using inherited_constructor by (rule map_of_None_not_inherited)
  with get_folder_inherited [OF plain inherited_constructor, of e] show ?thesis
    by simp
qed

lemma run_replicate_fixed:
  "snd (step e ev s) = s \<Longrightarrow> run e (replicate n ev) s = s"
  by (induction n) simp_all

lemma responses_replicate_fixed:
  "step e ev s = (Some r, s) \<Longrightarrow> responses e (replicate n ev) s = replicate n r"
  by (induction n) simp_all

text \<open>
  C10, the failing input. The folder \<^verbatim>\<open>__proto__\<close> is absent from \<open>cachedFolders\<close>, yet
  however often it is polled after start-up, each response is \<^verbatim>\<open>Object.prototype\<close> given
  to \<^verbatim>\<open>res.json\<close>, not the empty array, and no command beyond the one of the first full
  refresh is ever sent.
\<close>

theorem inherited_folder_polls_send_nothing:
  "responses e (replicate n (GetFolder ''__proto__'')) (booted e)
     = replicate n \<lparr>status = 200, body = ObjectPrototypeObj\<rparr>
   \<and> run e (replicate n (GetFolder ''__proto__'')) (booted e) = booted e
   \<and> sent (run e (replicate n (GetFolder ''__proto__'')) (booted e))
       = [listObjects_command (images_args e)]"
proof -
  have st: "step e (GetFolder ''__proto__'') (booted e)
      = (Some \<lparr>status = 200, body = ObjectPrototypeObj\<rparr>, booted e)"
    using get_folder_inherited [OF plain_cache_booted inherited_proto, of e e] by simp
  then have fixed: "run e (replicate n (GetFolder ''__proto__'')) (booted e) = booted e"
    by (simp add: run_replicate_fixed)
  have "sent (booted e) = [listObjects_command (images_args e)]"
    by (simp add: booted_def refresh_start_pending initial_server_def)
  with st fixed show ?thesis
    by (simp add: responses_replicate_fixed)
qed

section \<open>Folder requests for ordinary names\<close>

lemma get_folder_absent:
  assumes "proto (cachedFolders s) = ObjectPrototype" and "\<not> inherited folder"
    and "map_of (own (cachedFolders s)) folder = None"
  shows "cached_get_folder e folder s = (\<lparr>status = 200, body = Listing []\<rparr>, refreshFolder e folder s)"
proof -
  from assms(2) have "folder \<noteq> ''__proto__''" "folder \<notin> set object_prototype_methods"
    by (auto simp: inherited_def)
  with assms(1,3) show ?thesis
    by (simp add: cached_get_folder_def get_property_plain)
qed

lemma get_folder_present:
  assumes "map_of (own (cachedFolders s)) folder = Some v"
  shows "cached_get_folder e folder s = (\<lparr>status = 200, body = Listing v\<rparr>, s)"
  using assms by (simp add: cached_get_folder_def get_property_def)

text \<open>
  For a folder name that is not inherited from \<^verbatim>\<open>Object.prototype\<close> and has no entry
  yet, in any state the server reaches: the request is answered 200 with the empty array and
  starts exactly one refresh, which sends one command with the prefix \<open>folder/\<close>; once
  that call has settled with a listing, the next request returns the entries of the
  listing and starts nothing.
\<close>

theorem absent_folder_request_populates:
  assumes "s = run e evs (booted e)" and "\<not> inherited folder"
    and "map_of (own (cachedFolders s)) folder = None"
    and "s2 = complete e (length (pending s)) (Inr data) (refreshFolder e folder s)"
  shows "cached_get_folder e folder s = (\<lparr>status = 200, body = Listing []\<rparr>, refreshFolder e folder s)
       \<and> sent (refreshFolder e folder s)
           = sent s @ [\<lparr>Bucket = e ''AWS_BUCKET'', Prefix = folder @ ''/'', MaxKeys = 1000,
                        ContinuationToken = None\<rparr>]
       \<and> pending (refreshFolder e folder s)
           = pending s @ [(RefreshFolderTask folder,
                \<lparr>Bucket = e ''AWS_BUCKET'', Prefix = folder @ ''/'', MaxKeys = 1000,
                 ContinuationToken = None\<rparr>)]
       \<and> cached_get_folder e folder s2 = (\<lparr>status = 200, body = Listing (to_entries e data)\<rparr>, s2)"
proof -
  from assms(1) have "plain_cache s"
    by (simp add: plain_cache_reachable)
  then have pr: "proto (cachedFolders s) = ObjectPrototype"
    by (simp add: plain_cache_def)
  from assms(2) have np: "folder \<noteq> ''__proto__''"
    by (auto simp: inherited_def)
  have a: "cached_get_folder e folder s = (\<lparr>status = 200, body = Listing []\<rparr>, refreshFolder e folder s)"
    using pr assms(2,3) by (rule get_folder_absent)
  have b: "sent (refreshFolder e folder s)
           = sent s @ [\<lparr>Bucket = e ''AWS_BUCKET'', Prefix = folder @ ''/'', MaxKeys = 1000,
                        ContinuationToken = None\<rparr>]"
    by (simp add: refresh_start_pending listObjects_command_folder)
  have c: "pending (refreshFolder e folder s)
           = pending s @ [(RefreshFolderTask folder,
                \<lparr>Bucket = e ''AWS_BUCKET'', Prefix = folder @ ''/'', MaxKeys = 1000,
                 ContinuationToken = None\<rparr>)]"
    by (simp add: refresh_start_pending listObjects_command_folder)
  have "cachedFolders s2 = set_property (cachedFolders s) folder (to_entries e data)"
    unfolding assms(4) by (simp add: complete_cachedFolders refresh_start_pending refresh_start_frame)
  with np have "map_of (own (cachedFolders s2)) folder = Some (to_entries e data)"
    by (simp add: set_property_def map_of_put_own)
  then have d: "cached_get_folder e folder s2 = (\<lparr>status = 200, body = Listing (to_entries e data)\<rparr>, s2)"
    by (rule get_folder_present)
  show ?thesis
    by (intro conjI a b c d)
qed

text \<open>
  An instance: the first request for the folder \<open>a\<close> after start-up, and the request after
  its refresh has settled with the example page.
\<close>

theorem absent_folder_request_populates_witness:
  "\<not> inherited ''a'' \<and> map_of (own (cachedFolders (booted example_env))) ''a'' = None
   \<and> fst (cached_get_folder example_env ''a'' (booted example_env)) = \<lparr>status = 200, body = Listing []\<rparr>
   \<and> sent (snd (cached_get_folder example_env ''a'' (booted example_env)))
       = [\<lparr>Bucket = Some ''obsio'', Prefix = [], MaxKeys = 1000, ContinuationToken = None\<rparr>,
          \<lparr>Bucket = Some ''obsio'', Prefix = ''a/'', MaxKeys = 1000, ContinuationToken = None\<rparr>]
   \<and> fst (cached_get_folder example_env ''a''
        (complete example_env 1 (Inr example_page) (refreshFolder example_env ''a'' (booted example_env))))
       = \<lparr>status = 200,
          body = Listing
            [\<lparr>key = ''a/1.jpg'', url = ''https://obsio.s3.ap-south-1.amazonaws.com/a/1.jpg''\<rparr>,
             \<lparr>key = ''a/2.jpg'', url = ''https://obsio.s3.ap-south-1.amazonaws.com/a/2.jpg''\<rparr>]\<rparr>"
proof -
  have ni: "\<not> inherited ''a''"
    by (simp add: inherited_def object_prototype_methods_def)
  have ab: "map_of (own (cachedFolders (booted example_env))) ''a'' = None"
    by (simp add: booted_def refresh_start_frame initial_server_def)
  have len: "length (pending (booted example_env)) = 1"
    by (simp add: booted_def refresh_start_pending initial_server_def)
  have snt: "sent (booted example_env)
      = [\<lparr>Bucket = Some ''obsio'', Prefix = [], MaxKeys = 1000, ContinuationToken = None\<rparr>]"
    by (simp add: booted_def refresh_start_pending initial_server_def images_command_example)
  have env: "example_env ''AWS_BUCKET'' = Some ''obsio''"
    by (simp add: example_env_def)
  have run0: "booted example_env = run example_env [] (booted example_env)"
    by simp
  from absent_folder_request_populates [OF run0 ni ab refl, where data = example_page]
    ni ab len snt env
  show ?thesis
    by (simp add: to_entries_example_page)
qed

lemma polls_absent:
  assumes "proto (cachedFolders s) = ObjectPrototype" and "\<not> inherited folder"
    and "map_of (own (cachedFolders s)) folder = None"
  shows "responses e (replicate n (GetFolder folder)) s = replicate n \<lparr>status = 200, body = Listing []\<rparr>
       \<and> sent (run e (replicate n (GetFolder folder)) s)
           = sent s @ replicate n (listObjects_command (folder_args e folder))
       \<and> pending (run e (replicate n (GetFolder folder)) s)
           = pending s @ replicate n (RefreshFolderTask folder, listObjects_command (folder_args e folder))
       \<and> cachedFolders (run e (replicate n (GetFolder folder)) s) = cachedFolders s"
  using assms
proof (induction n arbitrary: s)
  case 0
  show ?case by simp
next
  case (Suc n)
  have st: "cached_get_folder e folder s = (\<lparr>status = 200, body = Listing []\<rparr>, refreshFolder e folder s)"
    using Suc.prems by (rule get_folder_absent)
  have keep: "cachedFolders (refreshFolder e folder s) = cachedFolders s"
    by (simp add: refresh_start_frame)
  from Suc.IH [of "refreshFolder e folder s"] Suc.prems keep st show ?case
    by (simp add: refresh_start_pending replicate_append_same [symmetric] del: replicate_Suc)
       (simp add: replicate_app_Cons_same)
qed

text \<open>
  For a folder name that is not inherited from \<^verbatim>\<open>Object.prototype\<close> and has no entry
  yet, in any state the server reaches: \<open>n\<close> requests in a row, before any call settles, are
  each answered with the empty array and each send a command of their own, so \<open>n\<close> more
  calls are awaited; nothing merges them.
\<close>

theorem absent_folder_polls_not_deduplicated:
  assumes "s = run e evs (booted e)" and "\<not> inherited folder"
    and "map_of (own (cachedFolders s)) folder = None"
  shows "responses e (replicate n (GetFolder folder)) s = replicate n \<lparr>status = 200, body = Listing []\<rparr>
       \<and> sent (run e (replicate n (GetFolder folder)) s)
           = sent s @ replicate n \<lparr>Bucket = e ''AWS_BUCKET'', Prefix = folder @ ''/'', MaxKeys = 1000,
                                    ContinuationToken = None\<rparr>
       \<and> length (pending (run e (replicate n (GetFolder folder)) s)) = length (pending s) + n"
proof -
  from assms(1) have "plain_cache s"
    by (simp add: plain_cache_reachable)
  then have pr: "proto (cachedFolders s) = ObjectPrototype"
    by (simp add: plain_cache_def)
  from polls_absent [OF pr assms(2,3), of e n] show ?thesis
    by (simp add: listObjects_command_folder)
qed

lemma replicate_3: "replicate 3 x = [x, x, x]"
  by (simp add: numeral_3_eq_3)

text \<open>An instance: three requests for the folder \<open>a\<close> right after start-up.\<close>

theorem absent_folder_polls_not_deduplicated_witness:
  "\<not> inherited ''a'' \<and> map_of (own (cachedFolders (booted example_env))) ''a'' = None
   \<and> responses example_env [GetFolder ''a'', GetFolder ''a'', GetFolder ''a''] (booted example_env)
       = [\<lparr>status = 200, body = Listing []\<rparr>, \<lparr>status = 200, body = Listing []\<rparr>,
          \<lparr>status = 200, body = Listing []\<rparr>]
   \<and> sent (run example_env [GetFolder ''a'', GetFolder ''a'', GetFolder ''a''] (booted example_env))
       = [\<lparr>Bucket = Some ''obsio'', Prefix = [], MaxKeys = 1000, ContinuationToken = None\<rparr>,
          \<lparr>Bucket = Some ''obsio'', Prefix = ''a/'', MaxKeys = 1000, ContinuationToken = None\<rparr>,
          \<lparr>Bucket = Some ''obsio'', Prefix = ''a/'', MaxKeys = 1000, ContinuationToken = None\<rparr>,
          \<lparr>Bucket = Some ''obsio'', Prefix = ''a/'', MaxKeys = 1000, ContinuationToken = None\<rparr>]"
proof -
  have ni: "\<not> inherited ''a''"
    by (simp add: inherited_def object_prototype_methods_def)
  have ab: "map_of (own (cachedFolders (booted example_env))) ''a'' = None"
    by (simp add: booted_def refresh_start_frame initial_server_def)
  have snt: "sent (booted example_env)
      = [\<lparr>Bucket = Some ''obsio'', Prefix = [], MaxKeys = 1000, ContinuationToken = None\<rparr>]"
    by (simp add: booted_def refresh_start_pending initial_server_def images_command_example)
  have env: "example_env ''AWS_BUCKET'' = Some ''obsio''"
    by (simp add: example_env_def)
  have run0: "booted example_env = run example_env [] (booted example_env)"
    by simp
  from absent_folder_polls_not_deduplicated [OF run0 ni ab, of 3] ni ab snt env
  show ?thesis
    by (simp add: replicate_3)
qed

section \<open>The example of the specification, run on the model\<close>

lemma to_entries_example_bucket:
  "to_entries example_env
     \<lparr>Contents = Some example_bucket, IsTruncated = False, NextContinuationToken = None\<rparr> =
     [\<lparr>key = ''a/1.jpg'', url = ''https://obsio.s3.ap-south-1.amazonaws.com/a/1.jpg''\<rparr>,
      \<lparr>key = ''a/2.jpg'', url = ''https://obsio.s3.ap-south-1.amazonaws.com/a/2.jpg''\<rparr>,
      \<lparr>key = ''b/1.jpg'', url = ''https://obsio.s3.ap-south-1.amazonaws.com/b/1.jpg''\<rparr>]"
  by (simp add: to_entries_def example_bucket_def to_entry_def object_url_def template_def
      example_env_def)

text \<open>
  The caching server against a simulated store holding \<^verbatim>\<open>a/1.jpg\<close>, \<^verbatim>\<open>a/2.jpg\<close>
  and \<^verbatim>\<open>b/1.jpg\<close>. Once the first full refresh has settled, \<^verbatim>\<open>GET /api/images\<close> returns
  the three entries; the first \<^verbatim>\<open>GET /api/images/a\<close> returns the empty array; once the
  refresh it started has settled, the same request returns the two entries under \<open>a/\<close>.
\<close>

theorem example_bucket_scenario:
  "responses example_env
     [Complete 0 (s3_sim example_bucket
        \<lparr>Bucket = Some ''obsio'', Prefix = [], MaxKeys = 1000, ContinuationToken = None\<rparr>),
      GetImages,
      GetFolder ''a'',
      Complete 0 (s3_sim example_bucket
        \<lparr>Bucket = Some ''obsio'', Prefix = ''a/'', MaxKeys = 1000, ContinuationToken = None\<rparr>),
      GetFolder ''a'']
     (booted example_env)
   = [\<lparr>status = 200,
       body = Listing
         [\<lparr>key = ''a/1.jpg'', url = ''https://obsio.s3.ap-south-1.amazonaws.com/a/1.jpg''\<rparr>,
          \<lparr>key = ''a/2.jpg'', url = ''https://obsio.s3.ap-south-1.amazonaws.com/a/2.jpg''\<rparr>,
          \<lparr>key = ''b/1.jpg'', url = ''https://obsio.s3.ap-south-1.amazonaws.com/b/1.jpg''\<rparr>]\<rparr>,
      \<lparr>status = 200, body = Listing []\<rparr>,
      \<lparr>status = 200,
       body = Listing
         [\<lparr>key = ''a/1.jpg'', url = ''https://obsio.s3.ap-south-1.amazonaws.com/a/1.jpg''\<rparr>,
          \<lparr>key = ''a/2.jpg'', url = ''https://obsio.s3.ap-south-1.amazonaws.com/a/2.jpg''\<rparr>]\<rparr>]"
proof -
  define full where
    "full = \<lparr>Contents = Some example_bucket, IsTruncated = False, NextContinuationToken = None\<rparr>"
  define s1 where "s1 = complete example_env 0 (Inr full) (booted example_env)"
  define s2 where "s2 = refreshFolder example_env ''a'' s1"
  define s3 where "s3 = complete example_env 0 (Inr example_page) s2"
  have booted_pending: "pending (booted example_env)
      = [(RefreshImagesTask, listObjects_command (images_args example_env))]"
    by (simp add: booted_def refresh_start_pending initial_server_def)
  have images1: "cachedImages s1 = to_entries example_env full"
    by (simp add: s1_def complete_cachedImages booted_pending)
  have "cachedFolders (booted example_env) = \<lparr>own = [], proto = ObjectPrototype\<rparr>"
    by (simp add: booted_def refresh_start_frame initial_server_def)
  then have folders1: "cachedFolders s1 = \<lparr>own = [], proto = ObjectPrototype\<rparr>"
    by (simp add: s1_def complete_cachedFolders booted_pending)
  have pending1: "pending s1 = []"
    by (simp add: s1_def complete_success_images booted_pending)
  have ni: "\<not> inherited ''a''"
    by (simp add: inherited_def object_prototype_methods_def)
  have r2: "cached_get_folder example_env ''a'' s1 = (\<lparr>status = 200, body = Listing []\<rparr>, s2)"
    unfolding s2_def by (rule get_folder_absent) (simp_all add: folders1 ni)
  have pending2: "pending s2
      = [(RefreshFolderTask ''a'', listObjects_command (folder_args example_env ''a''))]"
    by (simp add: s2_def refresh_start_pending pending1)
  have "cachedFolders s3 = set_property (cachedFolders s2) ''a'' (to_entries example_env example_page)"
    by (simp add: s3_def complete_cachedFolders pending2)
  then have "map_of (own (cachedFolders s3)) ''a'' = Some (to_entries example_env example_page)"
    by (simp add: set_property_def map_of_put_own)
  then have r3: "cached_get_folder example_env ''a'' s3
      = (\<lparr>status = 200, body = Listing (to_entries example_env example_page)\<rparr>, s3)"
    by (rule get_folder_present)
  have "responses example_env
     [Complete 0 (Inr full), GetImages, GetFolder ''a'', Complete 0 (Inr example_page), GetFolder ''a'']
     (booted example_env)
    = [\<lparr>status = 200, body = Listing (to_entries example_env full)\<rparr>,
       \<lparr>status = 200, body = Listing []\<rparr>,
       \<lparr>status = 200, body = Listing (to_entries example_env example_page)\<rparr>]"
    by (simp add: s1_def [symmetric] cached_get_images_def images1 r2 s3_def [symmetric] r3)
  then show ?thesis
    unfolding s3_sim_example_all s3_sim_example_folder full_def
    by (simp only: to_entries_example_bucket to_entries_example_page)
qed

end
